theory Spec2Isabelle
  imports Main "HOL-Library.Word"
begin

unbundle bit_operations_syntax

section \<open>JavaScript values, errors and effects\<close>

text \<open>
  A JavaScript string is a sequence of UTF-16 code units. The texts that a cycle only
  compares, stores and prints are \<open>string\<close>s; the secret, which the cipher encodes as
  UTF-8, is a \<open>jsstring\<close>, the list of its code units. A \<open>Buffer\<close> is a list of bytes.
  A value that may be \<open>null\<close> or \<open>undefined\<close> is an \<open>option\<close>. The tests \<open>if (x)\<close>
  and \<open>x || y\<close> of the source read an optional string as false when it is absent and
  also when it is the empty string.
\<close>

type_synonym byte = "8 word"

type_synonym jsstring = "16 word list"

definition truthy :: "string option \<Rightarrow> bool" where
  "truthy s = (case s of None \<Rightarrow> False | Some v \<Rightarrow> v \<noteq> [])"

text \<open>\<open>x || undefined\<close> on an optional string.\<close>

definition or_undefined :: "string option \<Rightarrow> string option" where
  "or_undefined s = (if truthy s then s else None)"

text \<open>\<open>x || d\<close> with a string default.\<close>

definition or_else :: "string option \<Rightarrow> string \<Rightarrow> string" where
  "or_else s d = (case s of None \<Rightarrow> d | Some v \<Rightarrow> if v \<noteq> [] then v else d)"

text \<open>
  A thrown error object. \<open>known\<close> says that it is a
  \<open>Prisma.PrismaClientKnownRequestError\<close>; \<open>code\<close> is its \<open>code\<close> property (a number
  for the Google client, a string for Prisma); \<open>response_data\<close> and \<open>errors\<close> are the two
  detail structures the services print.
\<close>

datatype jscode = NoCode | NumCode int | StrCode string

datatype exn = JsError (known: bool) (code: jscode) (message: string)
  (response_data: "string option") (errors: "string option")

definition plain_error :: "string \<Rightarrow> exn" where
  "plain_error m = JsError False NoCode m None None"

text \<open>
  What a run does that an observer can see: the console lines (level, the fixed text of
  the line without its time stamp, and the values interpolated into it), the calls to the
  remote services, and the write of the cursor.
\<close>

datatype level = LOG | WARN | ERROR

datatype call =
    HistoryList string
  | MessagesList "string option"
  | MessagesGet string
  | AttachmentsGet string string
  | FilesCreate string string string

datatype arg = Str string | Num nat

datatype event =
    Console level string "arg list"
  | Remote call
  | CursorWrite string

section \<open>The data model (Prisma schema and Gmail message)\<close>

record oauth_token =
  access :: string
  refresh :: string
  expiry :: int
  lastHistoryId :: "string option"

text \<open>The fields \<open>parseEmailContent\<close> returns, which are the columns of an Email row.\<close>

record parsed =
  gmailId :: "string option"
  threadId :: "string option"
  subject :: "string option"
  from_hdr :: "string option"
  to_hdr :: "string option"
  cc :: "string option"
  bcc :: "string option"
  messageId :: "string option"
  inReplyTo :: "string option"
  references_hdr :: "string option"
  internalDate :: "int option"
  body_text :: string

record email =
  email_id :: nat
  content :: parsed

record attachment =
  att_filename :: string
  att_mimeType :: string
  driveId :: string
  driveUrl :: string
  emailId :: nat

datatype part_body = PartBody (attachmentId: "string option") (data: "string option")

datatype part = Part (filename: "string option") (mimeType: "string option")
  (body: "part_body option") (parts: "part list option")

datatype header = Header (name: string) (hvalue: string)

datatype payload = Payload (headers: "header list option") (payload_parts: "part list option")

record gmail_message =
  msg_id :: "string option"
  msg_threadId :: "string option"
  msg_internalDate :: "string option"
  msg_payload :: "payload option"

text \<open>The database and the observable trace of a run.\<close>

record world =
  token :: "oauth_token option"
  emails :: "email list"
  attachments :: "attachment list"
  trace :: "event list"

definition emit :: "event \<Rightarrow> world \<Rightarrow> world" where
  "emit e w = w\<lparr>trace := trace w @ [e]\<rparr>"

definition console :: "level \<Rightarrow> string \<Rightarrow> string list \<Rightarrow> world \<Rightarrow> world" where
  "console l m args w = emit (Console l m (map Str args)) w"

section \<open>The environment of a cycle\<close>

text \<open>Responses of the remote services.\<close>

record message_added =
  added_message :: "gmail_message option"

record history_record =
  messagesAdded :: "message_added list option"

record history_response =
  history :: "history_record list option"
  historyId :: "string option"

record list_response =
  messages :: "gmail_message list option"
  nextPageToken :: "string option"

record drive_file =
  file_id :: "string option"
  webViewLink :: "string option"

text \<open>
  Everything outside the repository that a cycle calls: the Gmail and Drive endpoints,
  the failures of the database that are no unique-constraint violation, the cipher of
  Node's \<open>crypto\<close> module with the key and the initialisation vector of the process
  environment, and the library conversions of the parser. Each is a function of the
  arguments of the call. \<open>createCipheriv env k v bs\<close> is the output of \<open>update\<close> followed
  by \<open>final\<close> of the cipher made from the key \<open>k\<close> and the vector \<open>v\<close>, for the input
  \<open>bs\<close>; \<open>createDecipheriv\<close> likewise; \<open>None\<close> where one of the three calls throws.
\<close>

record env =
  token_find_fault :: "exn option"
  email_create_fault :: "parsed \<Rightarrow> exn option"
  attachment_create_fault :: "attachment \<Rightarrow> exn option"
  history_list :: "string \<Rightarrow> exn + history_response"
  messages_list :: "string option \<Rightarrow> exn + list_response"
  messages_get :: "string \<Rightarrow> exn + gmail_message"
  attachments_get :: "string \<Rightarrow> string \<Rightarrow> exn + string option"
  files_create :: "string \<Rightarrow> string \<Rightarrow> string \<Rightarrow> exn + drive_file option"
  ENCRYPTION_KEY :: "string option"
  ENCRYPTION_IV :: "string option"
  createCipheriv :: "byte list \<Rightarrow> byte list \<Rightarrow> byte list \<Rightarrow> byte list option"
  createDecipheriv :: "byte list \<Rightarrow> byte list \<Rightarrow> byte list \<Rightarrow> byte list option"
  decode_body :: "string \<Rightarrow> string"
  to_date :: "string option \<Rightarrow> int option"

section \<open>The aes-256-cbc cipher of Node's crypto module\<close>

text \<open>
  \<open>crypto.createCipheriv("aes-256-cbc", key, iv)\<close> hands the work to OpenSSL: the block
  cipher of FIPS 197 with a key of 256 bits (14 rounds), in the cipher block chaining mode
  of SP 800-38A, with the PKCS#7 padding that is on by default. A state is the list of its
  16 bytes, column after column. The two tables are the substitution box of the standard
  and its inverse.
\<close>

definition sbox_table :: "byte list" where
  "sbox_table = [
     0x63, 0x7c, 0x77, 0x7b, 0xf2, 0x6b, 0x6f, 0xc5, 0x30, 0x01, 0x67, 0x2b, 0xfe, 0xd7, 0xab, 0x76,
     0xca, 0x82, 0xc9, 0x7d, 0xfa, 0x59, 0x47, 0xf0, 0xad, 0xd4, 0xa2, 0xaf, 0x9c, 0xa4, 0x72, 0xc0,
     0xb7, 0xfd, 0x93, 0x26, 0x36, 0x3f, 0xf7, 0xcc, 0x34, 0xa5, 0xe5, 0xf1, 0x71, 0xd8, 0x31, 0x15,
     0x04, 0xc7, 0x23, 0xc3, 0x18, 0x96, 0x05, 0x9a, 0x07, 0x12, 0x80, 0xe2, 0xeb, 0x27, 0xb2, 0x75,
     0x09, 0x83, 0x2c, 0x1a, 0x1b, 0x6e, 0x5a, 0xa0, 0x52, 0x3b, 0xd6, 0xb3, 0x29, 0xe3, 0x2f, 0x84,
     0x53, 0xd1, 0x00, 0xed, 0x20, 0xfc, 0xb1, 0x5b, 0x6a, 0xcb, 0xbe, 0x39, 0x4a, 0x4c, 0x58, 0xcf,
     0xd0, 0xef, 0xaa, 0xfb, 0x43, 0x4d, 0x33, 0x85, 0x45, 0xf9, 0x02, 0x7f, 0x50, 0x3c, 0x9f, 0xa8,
     0x51, 0xa3, 0x40, 0x8f, 0x92, 0x9d, 0x38, 0xf5, 0xbc, 0xb6, 0xda, 0x21, 0x10, 0xff, 0xf3, 0xd2,
     0xcd, 0x0c, 0x13, 0xec, 0x5f, 0x97, 0x44, 0x17, 0xc4, 0xa7, 0x7e, 0x3d, 0x64, 0x5d, 0x19, 0x73,
     0x60, 0x81, 0x4f, 0xdc, 0x22, 0x2a, 0x90, 0x88, 0x46, 0xee, 0xb8, 0x14, 0xde, 0x5e, 0x0b, 0xdb,
     0xe0, 0x32, 0x3a, 0x0a, 0x49, 0x06, 0x24, 0x5c, 0xc2, 0xd3, 0xac, 0x62, 0x91, 0x95, 0xe4, 0x79,
     0xe7, 0xc8, 0x37, 0x6d, 0x8d, 0xd5, 0x4e, 0xa9, 0x6c, 0x56, 0xf4, 0xea, 0x65, 0x7a, 0xae, 0x08,
     0xba, 0x78, 0x25, 0x2e, 0x1c, 0xa6, 0xb4, 0xc6, 0xe8, 0xdd, 0x74, 0x1f, 0x4b, 0xbd, 0x8b, 0x8a,
     0x70, 0x3e, 0xb5, 0x66, 0x48, 0x03, 0xf6, 0x0e, 0x61, 0x35, 0x57, 0xb9, 0x86, 0xc1, 0x1d, 0x9e,
     0xe1, 0xf8, 0x98, 0x11, 0x69, 0xd9, 0x8e, 0x94, 0x9b, 0x1e, 0x87, 0xe9, 0xce, 0x55, 0x28, 0xdf,
     0x8c, 0xa1, 0x89, 0x0d, 0xbf, 0xe6, 0x42, 0x68, 0x41, 0x99, 0x2d, 0x0f, 0xb0, 0x54, 0xbb, 0x16]"

definition inv_sbox_table :: "byte list" where
  "inv_sbox_table = [
     0x52, 0x09, 0x6a, 0xd5, 0x30, 0x36, 0xa5, 0x38, 0xbf, 0x40, 0xa3, 0x9e, 0x81, 0xf3, 0xd7, 0xfb,
     0x7c, 0xe3, 0x39, 0x82, 0x9b, 0x2f, 0xff, 0x87, 0x34, 0x8e, 0x43, 0x44, 0xc4, 0xde, 0xe9, 0xcb,
     0x54, 0x7b, 0x94, 0x32, 0xa6, 0xc2, 0x23, 0x3d, 0xee, 0x4c, 0x95, 0x0b, 0x42, 0xfa, 0xc3, 0x4e,
     0x08, 0x2e, 0xa1, 0x66, 0x28, 0xd9, 0x24, 0xb2, 0x76, 0x5b, 0xa2, 0x49, 0x6d, 0x8b, 0xd1, 0x25,
     0x72, 0xf8, 0xf6, 0x64, 0x86, 0x68, 0x98, 0x16, 0xd4, 0xa4, 0x5c, 0xcc, 0x5d, 0x65, 0xb6, 0x92,
     0x6c, 0x70, 0x48, 0x50, 0xfd, 0xed, 0xb9, 0xda, 0x5e, 0x15, 0x46, 0x57, 0xa7, 0x8d, 0x9d, 0x84,
     0x90, 0xd8, 0xab, 0x00, 0x8c, 0xbc, 0xd3, 0x0a, 0xf7, 0xe4, 0x58, 0x05, 0xb8, 0xb3, 0x45, 0x06,
     0xd0, 0x2c, 0x1e, 0x8f, 0xca, 0x3f, 0x0f, 0x02, 0xc1, 0xaf, 0xbd, 0x03, 0x01, 0x13, 0x8a, 0x6b,
     0x3a, 0x91, 0x11, 0x41, 0x4f, 0x67, 0xdc, 0xea, 0x97, 0xf2, 0xcf, 0xce, 0xf0, 0xb4, 0xe6, 0x73,
     0x96, 0xac, 0x74, 0x22, 0xe7, 0xad, 0x35, 0x85, 0xe2, 0xf9, 0x37, 0xe8, 0x1c, 0x75, 0xdf, 0x6e,
     0x47, 0xf1, 0x1a, 0x71, 0x1d, 0x29, 0xc5, 0x89, 0x6f, 0xb7, 0x62, 0x0e, 0xaa, 0x18, 0xbe, 0x1b,
     0xfc, 0x56, 0x3e, 0x4b, 0xc6, 0xd2, 0x79, 0x20, 0x9a, 0xdb, 0xc0, 0xfe, 0x78, 0xcd, 0x5a, 0xf4,
     0x1f, 0xdd, 0xa8, 0x33, 0x88, 0x07, 0xc7, 0x31, 0xb1, 0x12, 0x10, 0x59, 0x27, 0x80, 0xec, 0x5f,
     0x60, 0x51, 0x7f, 0xa9, 0x19, 0xb5, 0x4a, 0x0d, 0x2d, 0xe5, 0x7a, 0x9f, 0x93, 0xc9, 0x9c, 0xef,
     0xa0, 0xe0, 0x3b, 0x4d, 0xae, 0x2a, 0xf5, 0xb0, 0xc8, 0xeb, 0xbb, 0x3c, 0x83, 0x53, 0x99, 0x61,
     0x17, 0x2b, 0x04, 0x7e, 0xba, 0x77, 0xd6, 0x26, 0xe1, 0x69, 0x14, 0x63, 0x55, 0x21, 0x0c, 0x7d]"

definition sbox :: "byte \<Rightarrow> byte" where
  "sbox x = sbox_table ! unat x"

definition inv_sbox :: "byte \<Rightarrow> byte" where
  "inv_sbox x = inv_sbox_table ! unat x"

text \<open>The multiplication by \<open>x\<close> in the field of 256 elements, modulo \<open>x^8 + x^4 + x^3 + x + 1\<close>.\<close>

definition xtime :: "byte \<Rightarrow> byte" where
  "xtime x = (if bit x 7 then push_bit 1 x XOR 0x1b else push_bit 1 x)"

definition xor_bytes :: "byte list \<Rightarrow> byte list \<Rightarrow> byte list" where
  "xor_bytes xs ys = map2 (XOR) xs ys"

definition sub_bytes :: "byte list \<Rightarrow> byte list" where
  "sub_bytes s = map sbox s"

definition inv_sub_bytes :: "byte list \<Rightarrow> byte list" where
  "inv_sub_bytes s = map inv_sbox s"

definition shift_rows :: "byte list \<Rightarrow> byte list" where
  "shift_rows s = map (\<lambda>i. s ! i) [0, 5, 10, 15, 4, 9, 14, 3, 8, 13, 2, 7, 12, 1, 6, 11]"

definition inv_shift_rows :: "byte list \<Rightarrow> byte list" where
  "inv_shift_rows s = map (\<lambda>i. s ! i) [0, 13, 10, 7, 4, 1, 14, 11, 8, 5, 2, 15, 12, 9, 6, 3]"

text \<open>One column times the matrix with the rows 02 03 01 01, and times its inverse.\<close>

definition mix_column :: "byte \<Rightarrow> byte \<Rightarrow> byte \<Rightarrow> byte \<Rightarrow> byte list" where
  "mix_column a b c d =
     [xtime a XOR (xtime b XOR b) XOR c XOR d,
      a XOR xtime b XOR (xtime c XOR c) XOR d,
      a XOR b XOR xtime c XOR (xtime d XOR d),
      (xtime a XOR a) XOR b XOR c XOR xtime d]"

definition mul9 :: "byte \<Rightarrow> byte" where
  "mul9 x = xtime (xtime (xtime x)) XOR x"

definition mul11 :: "byte \<Rightarrow> byte" where
  "mul11 x = xtime (xtime (xtime x)) XOR xtime x XOR x"

definition mul13 :: "byte \<Rightarrow> byte" where
  "mul13 x = xtime (xtime (xtime x)) XOR xtime (xtime x) XOR x"

definition mul14 :: "byte \<Rightarrow> byte" where
  "mul14 x = xtime (xtime (xtime x)) XOR xtime (xtime x) XOR xtime x"

definition inv_mix_column :: "byte \<Rightarrow> byte \<Rightarrow> byte \<Rightarrow> byte \<Rightarrow> byte list" where
  "inv_mix_column a b c d =
     [mul14 a XOR mul11 b XOR mul13 c XOR mul9 d,
      mul9 a XOR mul14 b XOR mul11 c XOR mul13 d,
      mul13 a XOR mul9 b XOR mul14 c XOR mul11 d,
      mul11 a XOR mul13 b XOR mul9 c XOR mul14 d]"

definition mix_columns :: "byte list \<Rightarrow> byte list" where
  "mix_columns s =
     mix_column (s ! 0) (s ! 1) (s ! 2) (s ! 3) @ mix_column (s ! 4) (s ! 5) (s ! 6) (s ! 7) @
     mix_column (s ! 8) (s ! 9) (s ! 10) (s ! 11) @ mix_column (s ! 12) (s ! 13) (s ! 14) (s ! 15)"

definition inv_mix_columns :: "byte list \<Rightarrow> byte list" where
  "inv_mix_columns s =
     inv_mix_column (s ! 0) (s ! 1) (s ! 2) (s ! 3) @ inv_mix_column (s ! 4) (s ! 5) (s ! 6) (s ! 7) @
     inv_mix_column (s ! 8) (s ! 9) (s ! 10) (s ! 11) @ inv_mix_column (s ! 12) (s ! 13) (s ! 14) (s ! 15)"

text \<open>
  The key schedule for a key of eight words. \<open>chain t ws\<close> adds to each word of \<open>ws\<close> the
  word made before it, starting from \<open>t\<close>; \<open>next_key\<close> makes the next eight words from the
  last eight: the first four start from the rotated and substituted last word plus the
  round constant, the other four from the substituted fourth. Seven steps give 64 words,
  of which the first 60 are the 15 round keys.
\<close>

fun chain :: "byte list \<Rightarrow> byte list list \<Rightarrow> byte list list" where
  "chain t [] = []"
| "chain t (w # ws) = xor_bytes w t # chain (xor_bytes w t) ws"

definition rot_sub :: "byte \<Rightarrow> byte list \<Rightarrow> byte list" where
  "rot_sub rc w = xor_bytes (map sbox (rotate1 w)) [rc, 0, 0, 0]"

definition second_half :: "byte list list \<Rightarrow> byte list list \<Rightarrow> byte list list" where
  "second_half ws a = a @ chain (map sbox (last a)) (drop 4 ws)"

definition next_key :: "byte \<Rightarrow> byte list list \<Rightarrow> byte list list" where
  "next_key rc ws = second_half ws (chain (rot_sub rc (last ws)) (take 4 ws))"

fun expand :: "byte list \<Rightarrow> byte list list \<Rightarrow> byte list list" where
  "expand [] ws = ws"
| "expand (rc # rcs) ws = ws @ expand rcs (next_key rc ws)"

fun words :: "byte list \<Rightarrow> byte list list" where
  "words (a # b # c # d # rest) = [a, b, c, d] # words rest"
| "words _ = []"

fun round_keys :: "byte list list \<Rightarrow> byte list list" where
  "round_keys (a # b # c # d # ws) = (a @ b @ c @ d) # round_keys ws"
| "round_keys _ = []"

definition key_expansion :: "byte list \<Rightarrow> byte list list" where
  "key_expansion k = butlast (round_keys (expand [1, 2, 4, 8, 16, 32, 64] (words k)))"

text \<open>The cipher of one block under the list of the round keys, and its inverse.\<close>

definition aes_round :: "byte list \<Rightarrow> byte list \<Rightarrow> byte list" where
  "aes_round k s = xor_bytes (mix_columns (shift_rows (sub_bytes s))) k"

definition inv_aes_round :: "byte list \<Rightarrow> byte list \<Rightarrow> byte list" where
  "inv_aes_round k s = inv_sub_bytes (inv_shift_rows (inv_mix_columns (xor_bytes s k)))"

definition cipher :: "byte list list \<Rightarrow> byte list \<Rightarrow> byte list" where
  "cipher ks s =
     xor_bytes (shift_rows (sub_bytes (fold aes_round (butlast (tl ks)) (xor_bytes s (hd ks))))) (last ks)"

definition inv_cipher :: "byte list list \<Rightarrow> byte list \<Rightarrow> byte list" where
  "inv_cipher ks s =
     xor_bytes (foldr inv_aes_round (butlast (tl ks)) (inv_sub_bytes (inv_shift_rows (xor_bytes s (last ks))))) (hd ks)"

text \<open>Cipher block chaining over the blocks of 16 bytes of a text, and the padding.\<close>

fun blocks :: "byte list \<Rightarrow> byte list list" where
  "blocks [] = []"
| "blocks (b # bs) = take 16 (b # bs) # blocks (drop 16 (b # bs))"

fun cbc_encrypt :: "byte list list \<Rightarrow> byte list \<Rightarrow> byte list list \<Rightarrow> byte list list" where
  "cbc_encrypt ks prev [] = []"
| "cbc_encrypt ks prev (b # bs) =
     (let c = cipher ks (xor_bytes b prev) in c # cbc_encrypt ks c bs)"

fun cbc_decrypt :: "byte list list \<Rightarrow> byte list \<Rightarrow> byte list list \<Rightarrow> byte list list" where
  "cbc_decrypt ks prev [] = []"
| "cbc_decrypt ks prev (c # cs) = xor_bytes (inv_cipher ks c) prev # cbc_decrypt ks c cs"

definition pad :: "byte list \<Rightarrow> byte list" where
  "pad bs = (let n = 16 - length bs mod 16 in bs @ replicate n (of_nat n))"

definition unpad :: "byte list \<Rightarrow> byte list option" where
  "unpad bs =
     (if bs = [] then None
      else let n = unat (last bs) in
        if 1 \<le> n \<and> n \<le> 16 \<and> n \<le> length bs \<and> drop (length bs - n) bs = replicate n (last bs)
        then Some (take (length bs - n) bs) else None)"

text \<open>
  What \<open>update\<close> followed by \<open>final\<close> returns for the whole input, \<open>None\<close> where one of
  the calls throws: \<open>createCipheriv\<close> and \<open>createDecipheriv\<close> when the key is not 32 bytes
  or the vector not 16, \<open>final\<close> of the decipher when the input is empty or no multiple of
  the block size, or when the padding of the last block is wrong.
\<close>

definition aes_256_cbc_encrypt :: "byte list \<Rightarrow> byte list \<Rightarrow> byte list \<Rightarrow> byte list option" where
  "aes_256_cbc_encrypt k v bs =
     (if length k = 32 \<and> length v = 16
      then Some (concat (cbc_encrypt (key_expansion k) v (blocks (pad bs))))
      else None)"

definition aes_256_cbc_decrypt :: "byte list \<Rightarrow> byte list \<Rightarrow> byte list \<Rightarrow> byte list option" where
  "aes_256_cbc_decrypt k v bs =
     (if length k = 32 \<and> length v = 16 \<and> bs \<noteq> [] \<and> length bs mod 16 = 0
      then unpad (concat (cbc_decrypt (key_expansion k) v (blocks bs)))
      else None)"

section \<open>The secret cipher (utils/encryption.ts)\<close>

text \<open>
  Node's \<open>hex\<close> encoding: two lower-case digits for a byte; decoding reads pairs of
  digits and stops at the first pair that is not hexadecimal.
\<close>

definition hex_digit :: "nat \<Rightarrow> char" where
  "hex_digit n = char_of (if n < 10 then 48 + n else 87 + n)"

definition digit_val :: "char \<Rightarrow> nat option" where
  "digit_val c =
     (let n = (of_char c :: nat) in
      if 48 \<le> n \<and> n \<le> 57 then Some (n - 48)
      else if 97 \<le> n \<and> n \<le> 102 then Some (n - 87)
      else if 65 \<le> n \<and> n \<le> 70 then Some (n - 55)
      else None)"

definition hex_byte :: "byte \<Rightarrow> string" where
  "hex_byte b = [hex_digit (unat b div 16), hex_digit (unat b mod 16)]"

definition hex_encode :: "byte list \<Rightarrow> string" where
  "hex_encode bs = concat (map hex_byte bs)"

fun hex_decode :: "string \<Rightarrow> byte list" where
  "hex_decode (a # b # rest) =
     (case digit_val a of
        None \<Rightarrow> []
      | Some x \<Rightarrow>
          (case digit_val b of
             None \<Rightarrow> []
           | Some y \<Rightarrow> of_nat (16 * x + y) # hex_decode rest))"
| "hex_decode _ = []"

text \<open>
  Node's \<open>utf8\<close> encoding of a string. A high surrogate followed by a low one is the code
  point above \<open>0xFFFF\<close> that the pair stands for; any other surrogate is written as the
  replacement character \<open>U+FFFD\<close>; every other code unit is its own code point.
\<close>

definition high_surrogate :: "16 word \<Rightarrow> bool" where
  "high_surrogate u = (0xD800 \<le> unat u \<and> unat u < 0xDC00)"

definition low_surrogate :: "16 word \<Rightarrow> bool" where
  "low_surrogate u = (0xDC00 \<le> unat u \<and> unat u < 0xE000)"

definition scalar :: "16 word \<Rightarrow> nat" where
  "scalar u = (if high_surrogate u \<or> low_surrogate u then 0xFFFD else unat u)"

definition utf8_of_code_point :: "nat \<Rightarrow> byte list" where
  "utf8_of_code_point n =
     (if n < 0x80 then [of_nat n]
      else if n < 0x800 then [of_nat (0xC0 + n div 64), of_nat (0x80 + n mod 64)]
      else if n < 0x10000 then
        [of_nat (0xE0 + n div 4096), of_nat (0x80 + n div 64 mod 64), of_nat (0x80 + n mod 64)]
      else
        [of_nat (0xF0 + n div 262144), of_nat (0x80 + n div 4096 mod 64),
         of_nat (0x80 + n div 64 mod 64), of_nat (0x80 + n mod 64)])"

fun utf8_encode :: "jsstring \<Rightarrow> byte list" where
  "utf8_encode [] = []"
| "utf8_encode [u] = utf8_of_code_point (scalar u)"
| "utf8_encode (u # v # us) =
     (if high_surrogate u \<and> low_surrogate v
      then utf8_of_code_point (0x10000 + (unat u - 0xD800) * 0x400 + (unat v - 0xDC00)) @ utf8_encode us
      else utf8_of_code_point (scalar u) @ utf8_encode (v # us))"

text \<open>
  Node's \<open>utf8\<close> decoding of bytes, by the one streaming decoder that \<open>update\<close> and
  \<open>final\<close> of a decipher share: a well-formed sequence is its code point, written as one
  code unit or as a surrogate pair; every maximal part of an ill-formed sequence is one
  replacement character.
\<close>

definition code_units :: "nat \<Rightarrow> jsstring" where
  "code_units n =
     (if n < 0x10000 then [of_nat n]
      else [of_nat (0xD800 + (n - 0x10000) div 0x400), of_nat (0xDC00 + (n - 0x10000) mod 0x400)])"

definition continuation :: "byte \<Rightarrow> bool" where
  "continuation b = (0x80 \<le> unat b \<and> unat b \<le> 0xBF)"

definition second_ok :: "nat \<Rightarrow> byte \<Rightarrow> bool" where
  "second_ok n c =
     (if n = 0xE0 then 0xA0 \<le> unat c \<and> unat c \<le> 0xBF
      else if n = 0xED then 0x80 \<le> unat c \<and> unat c \<le> 0x9F
      else if n = 0xF0 then 0x90 \<le> unat c \<and> unat c \<le> 0xBF
      else if n = 0xF4 then 0x80 \<le> unat c \<and> unat c \<le> 0x8F
      else continuation c)"

fun utf8_decode :: "byte list \<Rightarrow> jsstring" where
  "utf8_decode [] = []"
| "utf8_decode (b # bs) =
     (let n = unat b in
      if n < 0x80 then of_nat n # utf8_decode bs
      else if 0xC2 \<le> n \<and> n \<le> 0xDF then
        (case bs of
           [] \<Rightarrow> [0xFFFD]
         | c # cs \<Rightarrow>
             if \<not> continuation c then 0xFFFD # utf8_decode bs
             else of_nat ((n - 0xC0) * 64 + (unat c - 0x80)) # utf8_decode cs)
      else if 0xE0 \<le> n \<and> n \<le> 0xEF then
        (case bs of
           [] \<Rightarrow> [0xFFFD]
         | c # cs \<Rightarrow>
             if \<not> second_ok n c then 0xFFFD # utf8_decode bs
             else
               (case cs of
                  [] \<Rightarrow> [0xFFFD]
                | d # ds \<Rightarrow>
                    if \<not> continuation d then 0xFFFD # utf8_decode cs
                    else of_nat ((n - 0xE0) * 4096 + (unat c - 0x80) * 64 + (unat d - 0x80))
                           # utf8_decode ds))
      else if 0xF0 \<le> n \<and> n \<le> 0xF4 then
        (case bs of
           [] \<Rightarrow> [0xFFFD]
         | c # cs \<Rightarrow>
             if \<not> second_ok n c then 0xFFFD # utf8_decode bs
             else
               (case cs of
                  [] \<Rightarrow> [0xFFFD]
                | d # ds \<Rightarrow>
                    if \<not> continuation d then 0xFFFD # utf8_decode cs
                    else
                      (case ds of
                         [] \<Rightarrow> [0xFFFD]
                       | e # es \<Rightarrow>
                           if \<not> continuation e then 0xFFFD # utf8_decode ds
                           else code_units ((n - 0xF0) * 262144 + (unat c - 0x80) * 4096
                                             + (unat d - 0x80) * 64 + (unat e - 0x80))
                                  @ utf8_decode es)))
      else 0xFFFD # utf8_decode bs)"

text \<open>
  The checks the module makes when it is loaded: it throws, and nothing of the program
  runs, unless the key is 64 characters and the vector 32.
\<close>

definition encryption_module_error :: "env \<Rightarrow> exn option" where
  "encryption_module_error env =
     (if \<not> truthy (ENCRYPTION_KEY env) \<or> length (or_else (ENCRYPTION_KEY env) []) \<noteq> 64
      then Some (plain_error ''ENCRYPTION_KEY is missing or not 32 bytes (64 hex characters). Please set it in .env'')
      else if \<not> truthy (ENCRYPTION_IV env) \<or> length (or_else (ENCRYPTION_IV env) []) \<noteq> 32
      then Some (plain_error ''ENCRYPTION_IV is missing or not 16 bytes (32 hex characters). Please set it in .env'')
      else None)"

text \<open>
  The two module constants \<open>key\<close> and \<open>iv\<close>, computed once from the environment by
  \<open>Buffer.from(_, "hex")\<close>: a text with a character that is no hexadecimal digit gives a
  shorter buffer.
\<close>

definition key :: "env \<Rightarrow> byte list" where
  "key env = hex_decode (or_else (ENCRYPTION_KEY env) [])"

definition iv :: "env \<Rightarrow> byte list" where
  "iv env = hex_decode (or_else (ENCRYPTION_IV env) [])"

text \<open>
  \<open>encrypt\<close> has no \<open>catch\<close>: it throws (\<open>None\<close>) when the library does. The text is
  encoded as UTF-8 by \<open>update\<close>, and the hexadecimal texts of \<open>update\<close> and \<open>final\<close>
  together are the hexadecimal text of the whole output.
\<close>

definition encrypt :: "env \<Rightarrow> jsstring \<Rightarrow> string option" where
  "encrypt env text = map_option hex_encode (createCipheriv env (key env) (iv env) (utf8_encode text))"

text \<open>
  \<open>decrypt\<close> catches every exception of its three calls, prints it and throws an error of
  its own. \<open>update\<close> throws on a hexadecimal text of odd length and reads an even one up
  to its first pair that is not hexadecimal.
\<close>

definition decrypt :: "env \<Rightarrow> string \<Rightarrow> world \<Rightarrow> (exn + jsstring) \<times> world" where
  "decrypt env encryptedText w =
     (case (if even (length encryptedText)
            then createDecipheriv env (key env) (iv env) (hex_decode encryptedText)
            else None) of
        Some decrypted \<Rightarrow> (Inr (utf8_decode decrypted), w)
      | None \<Rightarrow>
          (Inl (plain_error ''Failed to decrypt token. Re-authentication may be required.''),
           console ERROR ''Decryption failed:'' [] w))"

section \<open>The credential lifecycle (auth/googleAuth.ts)\<close>

text \<open>\<open>prisma.oAuthToken.findUnique({ where: { id: 1 } })\<close>.\<close>

definition token_findUnique :: "env \<Rightarrow> world \<Rightarrow> exn + oauth_token option" where
  "token_findUnique env w =
     (case token_find_fault env of Some e \<Rightarrow> Inl e | None \<Rightarrow> Inr (token w))"

definition getAuthenticatedClient :: "env \<Rightarrow> world \<Rightarrow> (exn + unit) \<times> world" where
  "getAuthenticatedClient env w =
     (case token_findUnique env w of
        Inl e \<Rightarrow> (Inl e, w)
      | Inr None \<Rightarrow>
          (Inl (plain_error ''OAuth token not found in database. Please complete the authentication flow.''), w)
      | Inr (Some dbToken) \<Rightarrow>
          if refresh dbToken = []
          then (Inl (plain_error ''Refresh token is missing from the database. Re-authentication required.''), w)
          else
            (case decrypt env (refresh dbToken) w of
               (Inl e, w1) \<Rightarrow>
                 (Inl (plain_error ''Failed to decrypt refresh token. Re-authentication may be required.''),
                  console ERROR ''Failed to decrypt refresh token:'' [message e] w1)
             | (Inr decryptedRefreshToken, w1) \<Rightarrow> (Inr (), w1)))"

section \<open>The Gmail service (services/gmailService.ts)\<close>

text \<open>The two-armed print of the details of a Google API error.\<close>

definition log_api_details :: "string \<Rightarrow> exn \<Rightarrow> world \<Rightarrow> world" where
  "log_api_details label e w =
     (case response_data e of
        Some d \<Rightarrow> console ERROR label [d] w
      | None \<Rightarrow> (case errors e of Some d \<Rightarrow> console ERROR label [d] w | None \<Rightarrow> w))"

definition MAX_INITIAL_FETCH_PAGES :: nat where
  "MAX_INITIAL_FETCH_PAGES = 5"

text \<open>
  The nested loops over \<open>res.data.history\<close>: every \<open>message\<close> of every
  \<open>messagesAdded\<close> entry, in the order of the response.
\<close>

definition collect_added :: "history_response \<Rightarrow> gmail_message list" where
  "collect_added res =
     (case history res of
        None \<Rightarrow> []
      | Some hs \<Rightarrow>
          concat (map (\<lambda>historyRecord.
            case messagesAdded historyRecord of
              None \<Rightarrow> []
            | Some ms \<Rightarrow> List.map_filter added_message ms) hs))"

text \<open>
  The \<open>do ... while\<close> loop of the fallback mode. \<open>page\<close> is \<open>currentPage\<close> before the
  increment; the result carries the messages, the last \<open>nextPageToken\<close> and the number of
  pages fetched.
\<close>

function fallback_pages ::
  "env \<Rightarrow> gmail_message list \<Rightarrow> string option \<Rightarrow> nat \<Rightarrow> world
    \<Rightarrow> (exn + gmail_message list \<times> string option \<times> nat) \<times> world" where
  "fallback_pages env msgs tok page w =
     (let currentPage = Suc page;
          w1 = console LOG ''GmailService: Fallback messages.list page'' [or_else tok ''start''] w;
          w2 = emit (Remote (MessagesList (or_undefined tok))) w1
      in case messages_list env (or_undefined tok) of
           Inl e \<Rightarrow> (Inl e, w2)
         | Inr res \<Rightarrow>
             (let msgs' = (case messages res of Some ms \<Rightarrow> msgs @ ms | None \<Rightarrow> msgs);
                  tok' = nextPageToken res
              in if truthy tok' \<and> currentPage < MAX_INITIAL_FETCH_PAGES
                 then fallback_pages env msgs' tok' currentPage w2
                 else (Inr (msgs', tok', currentPage), w2)))"
  by pat_completeness auto
termination
  by (relation "measure (\<lambda>(env, msgs, tok, page, w). MAX_INITIAL_FETCH_PAGES - page)") auto

text \<open>The fallback branch of \<open>listNewEmailMessages\<close>, inside its \<open>try\<close>.\<close>

definition fallback_mode ::
  "env \<Rightarrow> world \<Rightarrow> (exn + gmail_message list \<times> string option) \<times> world" where
  "fallback_mode env w =
     (let w1 = console WARN
            ''GmailService: No startHistoryId provided. Performing fallback using messages.list for recent emails.''
            [] w
      in case fallback_pages env [] None 0 w1 of
           (Inl e, w2) \<Rightarrow> (Inl e, w2)
         | (Inr (msgs, tok, currentPage), w2) \<Rightarrow>
             (let w3 = (if currentPage \<ge> MAX_INITIAL_FETCH_PAGES \<and> truthy tok
                        then console WARN
                          ''GmailService: Reached MAX_INITIAL_FETCH_PAGES during fallback message list. Some older emails might not have been fetched in this run.''
                          [] w2
                        else w2);
                  w4 = console LOG ''GmailService: Fallback messages.list fetched message stubs.'' [] w3
              in (Inr (msgs, None), w4)))"

text \<open>The incremental branch of \<open>listNewEmailMessages\<close>, inside its \<open>try\<close>.\<close>

definition incremental_mode ::
  "env \<Rightarrow> string \<Rightarrow> world \<Rightarrow> (exn + gmail_message list \<times> string option) \<times> world" where
  "incremental_mode env startHistoryId w =
     (let w1 = console LOG ''GmailService: Fetching history since ID:'' [startHistoryId] w;
          w2 = emit (Remote (HistoryList startHistoryId)) w1
      in case history_list env startHistoryId of
           Inl e \<Rightarrow> (Inl e, w2)
         | Inr res \<Rightarrow>
             (let collectedMessages = collect_added res;
                  w3 = (if collectedMessages \<noteq> []
                        then console LOG ''GmailService: Found new message(s) via history.list.'' [] w2
                        else w2)
              in (Inr (collectedMessages, historyId res), w3)))"

definition listNewEmailMessages ::
  "env \<Rightarrow> string option \<Rightarrow> world \<Rightarrow> (exn + gmail_message list \<times> string option) \<times> world" where
  "listNewEmailMessages env startHistoryId w =
     (case getAuthenticatedClient env w of
        (Inl authError, w1) \<Rightarrow>
          (Inl authError,
           console ERROR ''GmailService: Failed to get authenticated client for listing messages:''
             [message authError] w1)
      | (Inr _, w1) \<Rightarrow>
          (case (if truthy startHistoryId
                 then incremental_mode env (or_else startHistoryId []) w1
                 else fallback_mode env w1) of
             (Inl error, w2) \<Rightarrow>
               (Inl error,
                log_api_details ''Google API Error details (Gmail List):'' error
                  (console ERROR ''GmailService: Error listing new email messages from Gmail API:''
                     [message error] w2))
           | (Inr res, w2) \<Rightarrow> (Inr res, w2)))"

definition getEmailContent ::
  "env \<Rightarrow> string \<Rightarrow> world \<Rightarrow> (exn + gmail_message option) \<times> world" where
  "getEmailContent env msgId w =
     (if msgId = []
      then (Inr None, console WARN ''GmailService: getEmailContent called with no messageId.'' [] w)
      else
        (case getAuthenticatedClient env w of
           (Inl authError, w1) \<Rightarrow>
             (Inl authError,
              console ERROR ''GmailService: Failed to get authenticated client for fetching email content''
                [msgId, message authError] w1)
         | (Inr _, w1) \<Rightarrow>
             (let w2 = console LOG ''GmailService: Fetching full content for message ID:'' [msgId] w1;
                  w3 = emit (Remote (MessagesGet msgId)) w2
              in case messages_get env msgId of
                   Inr res \<Rightarrow> (Inr (Some res), w3)
                 | Inl error \<Rightarrow>
                     (let w4 = console ERROR ''GmailService: Error fetching email content for message ID''
                                 [msgId, message error] w3
                      in if code error = NumCode 404
                         then (Inr None,
                               console WARN ''Message ID not found (404). It might have been deleted.''
                                 [msgId] w4)
                         else (Inl error,
                               log_api_details ''Google API Error details (Gmail Get):'' error w4)))))"

definition downloadAttachment ::
  "env \<Rightarrow> string \<Rightarrow> string \<Rightarrow> world \<Rightarrow> (exn + string option) \<times> world" where
  "downloadAttachment env msgId attId w =
     (if msgId = [] \<or> attId = []
      then (Inr None,
            console WARN ''GmailService: downloadAttachment called with missing messageId or attachmentId.'' [] w)
      else
        (case getAuthenticatedClient env w of
           (Inl authError, w1) \<Rightarrow>
             (Inl authError,
              console ERROR ''GmailService: Failed to get authenticated client for downloading attachment''
                [msgId, attId, message authError] w1)
         | (Inr _, w1) \<Rightarrow>
             (let w2 = console LOG ''GmailService: Downloading attachment'' [attId, msgId] w1;
                  w3 = emit (Remote (AttachmentsGet msgId attId)) w2
              in case attachments_get env msgId attId of
                   Inr d \<Rightarrow> (Inr (or_undefined d), w3)
                 | Inl error \<Rightarrow>
                     (let w4 = console ERROR ''GmailService: Error downloading attachment''
                                 [attId, msgId, message error] w3
                      in if code error = NumCode 404
                         then (Inr None,
                               console WARN ''Attachment ID not found (404).'' [attId, msgId] w4)
                         else (Inl error,
                               log_api_details ''Google API Error details (Gmail Attachment Get):'' error w4)))))"

section \<open>The Drive service (services/driveService.ts)\<close>

text \<open>
  The call of \<open>drive.files.create\<close> and the check of its response, inside the \<open>try\<close> of
  \<open>uploadToDrive\<close>; the \<open>catch\<close> of \<open>uploadToDrive\<close> prints every error of the two and
  throws it again.
\<close>

definition files_create_checked ::
  "env \<Rightarrow> string \<Rightarrow> string \<Rightarrow> string \<Rightarrow> world \<Rightarrow> (exn + drive_file) \<times> world" where
  "files_create_checked env fname mime base64data w =
     (let w1 = emit (Remote (FilesCreate fname mime base64data)) w
      in case files_create env fname mime base64data of
           Inl e \<Rightarrow> (Inl e, w1)
         | Inr None \<Rightarrow>
             (Inl (plain_error ''Google Drive API did not return expected file details (id, webViewLink).''),
              console ERROR ''DriveService: Drive API files.create response missing id or webViewLink:'' [] w1)
         | Inr (Some f) \<Rightarrow>
             if \<not> truthy (file_id f) \<or> \<not> truthy (webViewLink f)
             then (Inl (plain_error ''Google Drive API did not return expected file details (id, webViewLink).''),
                   console ERROR ''DriveService: Drive API files.create response missing id or webViewLink:'' [] w1)
             else (Inr f, w1))"

definition uploadToDrive ::
  "env \<Rightarrow> string \<Rightarrow> string \<Rightarrow> string \<Rightarrow> world \<Rightarrow> (exn + drive_file) \<times> world" where
  "uploadToDrive env fname mime base64data w =
     (if fname = [] \<or> mime = [] \<or> base64data = []
      then (Inl (plain_error ''uploadToDrive: Missing filename, mimeType, or base64data.''), w)
      else
        (case getAuthenticatedClient env w of
           (Inl authError, w1) \<Rightarrow>
             (Inl authError,
              console ERROR ''DriveService: Failed to get authenticated client for Drive upload:''
                [message authError] w1)
         | (Inr _, w1) \<Rightarrow>
             (case files_create_checked env fname mime base64data w1 of
                (Inr f, w2) \<Rightarrow> (Inr f, w2)
              | (Inl error, w2) \<Rightarrow>
                  (Inl error,
                   log_api_details ''Google API Error (Drive Upload):'' error
                     (console ERROR ''DriveService: Error uploading file to Google Drive:''
                        [fname, message error] w2)))))"

section \<open>The parser (utils/emailParser.ts)\<close>

text \<open>\<open>toLowerCase\<close> on the ASCII letters, which is what header names are made of.\<close>

definition toLowerCase :: "string \<Rightarrow> string" where
  "toLowerCase s =
     map (\<lambda>c. if 65 \<le> (of_char c :: nat) \<and> (of_char c :: nat) \<le> 90
              then char_of ((of_char c :: nat) + 32) else c) s"

definition getHeader :: "header list \<Rightarrow> string \<Rightarrow> string option" where
  "getHeader hs n =
     map_option hvalue (find (\<lambda>h. toLowerCase (name h) = toLowerCase n) hs)"

text \<open>
  Reading \<open>rawPayload.payload.headers\<close> of a message without payload, and calling
  \<open>find\<close> on absent headers, throw a \<open>TypeError\<close>.
\<close>

definition parseEmailContent :: "env \<Rightarrow> gmail_message \<Rightarrow> exn + parsed" where
  "parseEmailContent env rawPayload =
     (case msg_payload rawPayload of
        None \<Rightarrow> Inl (plain_error ''TypeError: Cannot read properties of undefined (reading 'headers')'')
      | Some pl \<Rightarrow>
          (case headers pl of
             None \<Rightarrow> Inl (plain_error ''TypeError: Cannot read properties of undefined (reading 'find')'')
           | Some hs \<Rightarrow>
               (let ps = (case payload_parts pl of Some ps \<Rightarrow> ps | None \<Rightarrow> []);
                    bodyPart = find (\<lambda>p. mimeType p = Some ''text/html'' \<or> mimeType p = Some ''text/plain'') ps;
                    b = or_else (case bodyPart of
                                   None \<Rightarrow> None
                                 | Some p \<Rightarrow> (case body p of None \<Rightarrow> None | Some pb \<Rightarrow> data pb)) []
                in Inr \<lparr> gmailId = msg_id rawPayload,
                         threadId = msg_threadId rawPayload,
                         subject = getHeader hs ''Subject'',
                         from_hdr = getHeader hs ''From'',
                         to_hdr = getHeader hs ''To'',
                         cc = getHeader hs ''Cc'',
                         bcc = getHeader hs ''Bcc'',
                         messageId = getHeader hs ''Message-ID'',
                         inReplyTo = getHeader hs ''In-Reply-To'',
                         references_hdr = getHeader hs ''References'',
                         internalDate = to_date env (msg_internalDate rawPayload),
                         body_text = (if b \<noteq> [] then decode_body env b else b) \<rparr>)))"

section \<open>The item store (models/emailModel.ts)\<close>

text \<open>
  The unique indexes of the Email table: \<open>gmailId\<close>, and \<open>messageId\<close> where it is not
  null.
\<close>

definition unique_violation :: "email list \<Rightarrow> parsed \<Rightarrow> bool" where
  "unique_violation es p =
     (\<exists>e \<in> set es. gmailId (content e) = gmailId p
        \<or> (messageId p \<noteq> None \<and> messageId (content e) = messageId p))"

definition P2002 :: exn where
  "P2002 = JsError True (StrCode ''P2002'') ''Unique constraint failed'' None None"

text \<open>\<open>prisma.email.create\<close>: the new row gets the next number of the sequence.\<close>

definition email_create :: "env \<Rightarrow> parsed \<Rightarrow> world \<Rightarrow> exn + email \<times> world" where
  "email_create env p w =
     (case email_create_fault env p of
        Some e \<Rightarrow> Inl e
      | None \<Rightarrow>
          if unique_violation (emails w) p then Inl P2002
          else (let e = \<lparr> email_id = Suc (length (emails w)), content = p \<rparr>
                in Inr (e, w\<lparr>emails := emails w @ [e]\<rparr>)))"

definition saveEmail :: "env \<Rightarrow> parsed \<Rightarrow> world \<Rightarrow> email option \<times> world" where
  "saveEmail env parsedEmailData w =
     (case email_create env parsedEmailData w of
        Inr (e, w1) \<Rightarrow> (Some e, w1)
      | Inl error \<Rightarrow>
          if known error \<and> code error = StrCode ''P2002''
          then (None,
                console LOG ''Duplicate email detected by constraint. Skipping.''
                  [or_else (gmailId parsedEmailData) [], or_else (messageId parsedEmailData) []] w)
          else (None,
                console ERROR ''Failed to save email to database:''
                  [or_else (gmailId parsedEmailData) [], or_else (messageId parsedEmailData) [],
                   message error] w))"

section \<open>Item processing (jobs/processEmail.ts)\<close>

fun findAttachments :: "part list \<Rightarrow> part list \<Rightarrow> part list" where
  "findAttachments [] collected = collected"
| "findAttachments (Part fname mime b sub # ps) collected =
     (let c1 = (if truthy fname \<and> truthy (case b of None \<Rightarrow> None | Some pb \<Rightarrow> attachmentId pb)
                then collected @ [Part fname mime b sub] else collected);
          c2 = (case sub of
                  None \<Rightarrow> c1
                | Some s \<Rightarrow> if s \<noteq> [] then findAttachments s c1 else c1)
      in findAttachments ps c2)"

text \<open>
  \<open>prisma.attachment.create\<close>: the table has no unique index, so the insert fails only
  when the database raises an error of its own.
\<close>

definition attachment_create :: "env \<Rightarrow> attachment \<Rightarrow> world \<Rightarrow> exn + world" where
  "attachment_create env a w =
     (case attachment_create_fault env a of
        Some e \<Rightarrow> Inl e
      | None \<Rightarrow> Inr (w\<lparr>attachments := attachments w @ [a]\<rparr>))"

text \<open>
  The body of the loop over \<open>attachmentsToProcess\<close>, for one part: \<open>rawId\<close> is
  \<open>rawEmail.id\<close>. A \<open>continue\<close> and the end of the \<open>catch\<close> block both return the world
  to the loop. The optional print of the stack of an error is left out.
\<close>

definition processPart :: "env \<Rightarrow> string \<Rightarrow> email \<Rightarrow> part \<Rightarrow> world \<Rightarrow> world" where
  "processPart env rawId savedEmail p w =
     (let attId = (case body p of None \<Rightarrow> None | Some pb \<Rightarrow> attachmentId pb)
      in if \<not> truthy attId \<or> \<not> truthy (filename p) \<or> \<not> truthy (mimeType p)
         then console WARN
                ''Skipping malformed attachment part: Missing attachmentId, filename, or mimeType.'' [] w
         else
           (let attachmentFilename = or_else (filename p) [];
                w1 = console LOG ''Downloading attachment:'' [attachmentFilename] w
            in case downloadAttachment env rawId (or_else attId []) w1 of
                 (Inl attachmentError, w2) \<Rightarrow>
                   console ERROR ''Error processing attachment'' [attachmentFilename, message attachmentError] w2
               | (Inr base64data, w2) \<Rightarrow>
                   if \<not> truthy base64data
                   then console ERROR ''Failed to download attachment data. Skipping this attachment.''
                          [attachmentFilename, or_else attId []] w2
                   else
                     (let w3 = console LOG ''Uploading to Drive'' [attachmentFilename] w2
                      in case uploadToDrive env attachmentFilename (or_else (mimeType p) [])
                                (or_else base64data []) w3 of
                           (Inl attachmentError, w4) \<Rightarrow>
                             console ERROR ''Error processing attachment''
                               [attachmentFilename, message attachmentError] w4
                         | (Inr uploadedFile, w4) \<Rightarrow>
                             if \<not> truthy (file_id uploadedFile) \<or> \<not> truthy (webViewLink uploadedFile)
                             then console ERROR
                                    ''Failed to upload to Drive or received incomplete data from Drive API. Skipping DB record for this attachment.''
                                    [attachmentFilename] w4
                             else
                               (case attachment_create env
                                       \<lparr> att_filename = attachmentFilename,
                                         att_mimeType = or_else (mimeType p) [],
                                         driveId = or_else (file_id uploadedFile) [],
                                         driveUrl = or_else (webViewLink uploadedFile) [],
                                         emailId = email_id savedEmail \<rparr> w4 of
                                  Inl attachmentError \<Rightarrow>
                                    console ERROR ''Error processing attachment''
                                      [attachmentFilename, message attachmentError] w4
                                | Inr w5 \<Rightarrow>
                                    console LOG ''Successfully processed attachment''
                                      [attachmentFilename, or_else (file_id uploadedFile) []] w5))))"

text \<open>
  \<open>saveEmail\<close> catches every error of the insert itself, so the \<open>catch\<close> around its call
  has nothing to catch.
\<close>

definition processAndSaveEmail :: "env \<Rightarrow> gmail_message \<Rightarrow> world \<Rightarrow> world" where
  "processAndSaveEmail env rawEmail w =
     (if \<not> truthy (msg_id rawEmail)
      then console WARN ''processAndSaveEmail received invalid or incomplete rawEmail object. Skipping.'' [] w
      else
        (case parseEmailContent env rawEmail of
           Inl error \<Rightarrow>
             console ERROR ''Error parsing email content for Gmail ID''
               [or_else (msg_id rawEmail) [], message error] w
         | Inr parsedEmailData \<Rightarrow>
             (case saveEmail env parsedEmailData w of
                (None, w1) \<Rightarrow>
                  console LOG
                    ''Email was not saved (likely a duplicate or minor save issue). Skipping attachment processing.''
                    [or_else (gmailId parsedEmailData) [], or_else (messageId parsedEmailData) []] w1
              | (Some savedEmail, w1) \<Rightarrow>
                  (let w2 = console LOG ''Email metadata saved to DB.''
                              [take 30 (or_else (subject (content savedEmail)) ''No Subject'')] w1
                   in case msg_payload rawEmail of
                        None \<Rightarrow>
                          console WARN ''Email has no payload. Skipping attachment processing.''
                            [or_else (msg_id rawEmail) []] w2
                      | Some pl \<Rightarrow>
                          (let attachmentsToProcess =
                                 findAttachments (case payload_parts pl of Some ps \<Rightarrow> ps | None \<Rightarrow> []) []
                           in if attachmentsToProcess \<noteq> []
                              then fold (processPart env (or_else (msg_id rawEmail) []) savedEmail)
                                     attachmentsToProcess
                                     (console LOG ''Found attachment(s) for email'' [or_else (msg_id rawEmail) []] w2)
                              else console LOG ''No attachments found to process for email''
                                     [or_else (msg_id rawEmail) []] w2)))))"

section \<open>The synchronization cycle (jobs/syncGmail.ts)\<close>

text \<open>\<open>prisma.oAuthToken.update({ where: { id: 1 }, data: { lastHistoryId } })\<close>.\<close>

definition token_update_cursor :: "string \<Rightarrow> world \<Rightarrow> exn + world" where
  "token_update_cursor h w =
     (case token w of
        None \<Rightarrow> Inl (JsError True (StrCode ''P2025'') ''Record to update not found.'' None None)
      | Some t \<Rightarrow> Inr (emit (CursorWrite h) (w\<lparr>token := Some (t\<lparr>lastHistoryId := Some h\<rparr>)\<rparr>)))"

text \<open>
  The body of the loop over \<open>messageHeaders\<close>, for one header, on the two counters and
  the world.
\<close>

definition sync_one :: "env \<Rightarrow> gmail_message \<Rightarrow> nat \<times> nat \<times> world \<Rightarrow> nat \<times> nat \<times> world" where
  "sync_one env messageHeader st =
     (case st of (successfullyProcessedCount, failedProcessingCount, w) \<Rightarrow>
        if \<not> truthy (msg_id messageHeader)
        then (successfullyProcessedCount, Suc failedProcessingCount,
              console WARN ''Skipping invalid message header:'' [] w)
        else
          (let gmailMessageId = or_else (msg_id messageHeader) [];
               w1 = console LOG ''Processing email with Gmail ID:'' [gmailMessageId] w
           in case getEmailContent env gmailMessageId w1 of
                (Inl emailProcessingError, w2) \<Rightarrow>
                  (successfullyProcessedCount, Suc failedProcessingCount,
                   console ERROR ''Error during processing pipeline for email with Gmail ID''
                     [gmailMessageId, message emailProcessingError] w2)
              | (Inr None, w2) \<Rightarrow>
                  (successfullyProcessedCount, Suc failedProcessingCount,
                   console ERROR ''Failed to fetch full content for email with Gmail ID. Skipping.''
                     [gmailMessageId] w2)
              | (Inr (Some fullEmail), w2) \<Rightarrow>
                  (Suc successfullyProcessedCount, failedProcessingCount,
                   processAndSaveEmail env fullEmail w2)))"

definition process_batch :: "env \<Rightarrow> gmail_message list \<Rightarrow> world \<Rightarrow> nat \<times> nat \<times> world" where
  "process_batch env messageHeaders w = fold (sync_one env) messageHeaders (0, 0, w)"

text \<open>The \<open>try\<close> block of \<open>runEmailSync\<close>; \<open>Inl\<close> is the error its \<open>catch\<close> receives.\<close>

definition sync_body :: "env \<Rightarrow> string option \<Rightarrow> world \<Rightarrow> (exn + unit) \<times> world" where
  "sync_body env currentHistoryId w =
     (case listNewEmailMessages env (or_undefined currentHistoryId) w of
        (Inl e, w1) \<Rightarrow> (Inl e, w1)
      | (Inr (messageHeaders, newHistoryId), w1) \<Rightarrow>
          if messageHeaders = [] then
            (let w2 = console LOG ''No new email messages to sync.'' [] w1
             in if truthy newHistoryId \<and> newHistoryId \<noteq> currentHistoryId
                then
                  (case token_update_cursor (or_else newHistoryId []) w2 of
                     Inl e \<Rightarrow> (Inl e, w2)
                   | Inr w3 \<Rightarrow>
                       (Inr (),
                        console LOG ''Email synchronization cycle completed.'' []
                          (console LOG ''Updated history ID (no new messages, but history advanced).''
                             [or_else newHistoryId []] w3)))
                else (Inr (), console LOG ''Email synchronization cycle completed.'' [] w2))
          else
            (let w2 = console LOG ''Found new email message(s) to process.'' [] w1;
                 (successfullyProcessedCount, failedProcessingCount, w3) =
                    process_batch env messageHeaders w2;
                 w4 = emit (Console LOG ''Processing summary: succeeded, failed.''
                              [Num successfullyProcessedCount, Num failedProcessingCount]) w3
             in if truthy newHistoryId
                then
                  (case token_update_cursor (or_else newHistoryId []) w4 of
                     Inl e \<Rightarrow> (Inl e, w4)
                   | Inr w5 \<Rightarrow>
                       (Inr (),
                        console LOG ''Email synchronization cycle completed.'' []
                          (console LOG ''Updated last processed Gmail History ID.''
                             [or_else newHistoryId []] w5)))
                else
                  (let w5 = (if messageHeaders \<noteq> [] \<and> \<not> truthy currentHistoryId
                             then console WARN
                               ''Note: Sync used messages.list (likely initial sync). A new history ID will be established on the next history-based sync.''
                               [] w4
                             else w4)
                   in (Inr (), console LOG ''Email synchronization cycle completed.'' [] w5))))"

definition runEmailSync :: "env \<Rightarrow> world \<Rightarrow> world" where
  "runEmailSync env w =
     (let w0 = console LOG ''Starting email synchronization cycle...'' [] w
      in case token_findUnique env w0 of
           Inl dbError \<Rightarrow>
             console ERROR ''Critical error fetching OAuth token from DB:'' [message dbError] w0
         | Inr None \<Rightarrow>
             console ERROR ''No OAuth token found in DB. Please complete the authentication flow.'' [] w0
         | Inr (Some tokenRecord) \<Rightarrow>
             if refresh tokenRecord = []
             then console ERROR
                    ''OAuth token record found, but refresh token is missing. Re-authentication required.'' [] w0
             else
               (let currentHistoryId = lastHistoryId tokenRecord;
                    w1 = console LOG ''Current last processed Gmail History ID:''
                           [or_else currentHistoryId ''None (first sync or reset)''] w0
                in case sync_body env currentHistoryId w1 of
                     (Inr _, w2) \<Rightarrow> w2
                   | (Inl fatalSyncError, w2) \<Rightarrow>
                       (let w3 = console ERROR ''FATAL ERROR during email synchronization cycle:''
                                   [message fatalSyncError] w2
                        in case response_data fatalSyncError of
                             Some d \<Rightarrow> console ERROR ''Underlying API Error from Google:'' [d] w3
                           | None \<Rightarrow> w3)))"

text \<open>A sequence of cycles, one after the other, each against its own environment.\<close>

definition run_cycles :: "env list \<Rightarrow> world \<Rightarrow> world" where
  "run_cycles envs w = fold runEmailSync envs w"

section \<open>Notions used in the statements\<close>

text \<open>A step that only writes to the console or calls a remote service leaves the
  database as it is and extends the trace.\<close>

definition logs_only :: "world \<Rightarrow> world \<Rightarrow> bool" where
  "logs_only w w' \<longleftrightarrow>
     token w' = token w \<and> emails w' = emails w \<and> attachments w' = attachments w
     \<and> (\<exists>t. trace w' = trace w @ t)"

text \<open>The persisted cursor: \<open>lastHistoryId\<close> of the token record, if there is one.\<close>

definition cursor :: "world \<Rightarrow> string option" where
  "cursor w = (case token w of None \<Rightarrow> None | Some t \<Rightarrow> lastHistoryId t)"

text \<open>What the listing call of a cycle that starts in \<open>w\<close> returns.\<close>

definition listing :: "env \<Rightarrow> world \<Rightarrow> exn + gmail_message list \<times> string option" where
  "listing env w = fst (listNewEmailMessages env (or_undefined (cursor w)) w)"

text \<open>The live client can be obtained.\<close>

definition auth_ok :: "env \<Rightarrow> world \<Rightarrow> bool" where
  "auth_ok env w \<longleftrightarrow> fst (getAuthenticatedClient env w) = Inr ()"

text \<open>
  The parts of a nested part tree, each part before the parts nested in it, in the order
  of the lists.
\<close>

fun all_parts :: "part list \<Rightarrow> part list" where
  "all_parts [] = []"
| "all_parts (Part fname mime b sub # ps) =
     Part fname mime b sub # (case sub of None \<Rightarrow> [] | Some s \<Rightarrow> all_parts s) @ all_parts ps"

text \<open>
  A part qualifies as an attachment: it has a non-empty declared file name and its body
  carries the reference for a secondary fetch.
\<close>

definition qualifies :: "part \<Rightarrow> bool" where
  "qualifies p \<longleftrightarrow>
     truthy (filename p) \<and> (case body p of None \<Rightarrow> False | Some pb \<Rightarrow> truthy (attachmentId pb))"

text \<open>A call of \<open>messages.list\<close> in the trace, and the warning that the page cap was hit.\<close>

fun is_list_call :: "event \<Rightarrow> bool" where
  "is_list_call (Remote (MessagesList t)) = True"
| "is_list_call e = False"

definition cap_warning :: event where
  "cap_warning = Console WARN
     ''GmailService: Reached MAX_INITIAL_FETCH_PAGES during fallback message list. Some older emails might not have been fetched in this run.''
     []"

text \<open>
  No two stored rows have the same \<open>gmailId\<close>, and no two have the same \<open>messageId\<close>
  unless it is null.
\<close>

definition unique_ok :: "email list \<Rightarrow> bool" where
  "unique_ok es \<longleftrightarrow>
     distinct (map (\<lambda>e. gmailId (content e)) es)
     \<and> distinct (filter (\<lambda>m. m \<noteq> None) (map (\<lambda>e. messageId (content e)) es))"

text \<open>
  The rule of attachment atomicity: the record of a part exists exactly when the part is
  well formed, its download returned data, its upload returned a file (with identifier and
  locator) and the database accepted the insert; it then links the owning item to that
  file.
\<close>

definition transfer :: "env \<Rightarrow> world \<Rightarrow> string \<Rightarrow> email \<Rightarrow> part \<Rightarrow> attachment list" where
  "transfer env w rawId savedEmail p =
     (let attId = (case body p of None \<Rightarrow> None | Some pb \<Rightarrow> attachmentId pb)
      in if \<not> truthy attId \<or> \<not> truthy (filename p) \<or> \<not> truthy (mimeType p) then []
         else
           (case fst (downloadAttachment env rawId (or_else attId []) w) of
              Inr (Some d) \<Rightarrow>
                (case fst (uploadToDrive env (or_else (filename p) []) (or_else (mimeType p) []) d w) of
                   Inr f \<Rightarrow>
                     (let a = \<lparr> att_filename = or_else (filename p) [],
                                att_mimeType = or_else (mimeType p) [],
                                driveId = or_else (file_id f) [],
                                driveUrl = or_else (webViewLink f) [],
                                emailId = email_id savedEmail \<rparr>
                      in if attachment_create_fault env a = None then [a] else [])
                 | Inl e \<Rightarrow> [])
            | Inr None \<Rightarrow> []
            | Inl e \<Rightarrow> []))"

text \<open>
  A stored row with the fields \<open>q\<close> makes the insert of \<open>p\<close> violate a unique index.
\<close>

definition collide :: "parsed \<Rightarrow> parsed \<Rightarrow> bool" where
  "collide q p \<longleftrightarrow> gmailId q = gmailId p \<or> (messageId p \<noteq> None \<and> messageId q = messageId p)"

text \<open>No item of a list collides with a later one.\<close>

fun pairwise_fresh :: "parsed list \<Rightarrow> bool" where
  "pairwise_fresh [] = True"
| "pairwise_fresh (p # ps) = ((\<forall>q \<in> set ps. \<not> collide p q) \<and> pairwise_fresh ps)"

text \<open>
  Nothing fails for the header \<open>h\<close>: it has an id, the fetch of the id returns a message
  with an id, the message parses to \<open>p\<close>, and the database raises no error of its own on
  the insert of \<open>p\<close>.
\<close>

definition stores :: "env \<Rightarrow> gmail_message \<Rightarrow> parsed \<Rightarrow> bool" where
  "stores env h p \<longleftrightarrow>
     (case msg_id h of
        None \<Rightarrow> False
      | Some j \<Rightarrow>
          j \<noteq> [] \<and>
          (case messages_get env j of
             Inl e \<Rightarrow> False
           | Inr full \<Rightarrow>
               truthy (msg_id full) \<and> parseEmailContent env full = Inr p
               \<and> email_create_fault env p = None))"

text \<open>
  A string is well formed (\<open>String.prototype.isWellFormed\<close>) when each of its surrogates
  is half of a pair. A text is hexadecimal when each of its characters is a digit.
\<close>

fun well_formed :: "jsstring \<Rightarrow> bool" where
  "well_formed [] = True"
| "well_formed [u] = (\<not> high_surrogate u \<and> \<not> low_surrogate u)"
| "well_formed (u # v # us) =
     (if high_surrogate u then low_surrogate v \<and> well_formed us
      else \<not> low_surrogate u \<and> well_formed (v # us))"

definition hex_char :: "char \<Rightarrow> bool" where
  "hex_char c = (digit_val c \<noteq> None)"

section \<open>Concrete environments\<close>

definition err500 :: exn where
  "err500 = JsError False (NumCode 500) ''Backend Error'' None None"

definition err404 :: exn where
  "err404 = JsError False (NumCode 404) ''Not Found'' None None"

text \<open>
  An environment in which every remote call fails with a server error; the cipher is a
  toy one (it reverses the bytes), enough to run the cycle. The examples below override
  single services of it.
\<close>

definition env_base :: env where
  "env_base =
     \<lparr> token_find_fault = None,
       email_create_fault = (\<lambda>p. None),
       attachment_create_fault = (\<lambda>a. None),
       history_list = (\<lambda>h. Inl err500),
       messages_list = (\<lambda>t. Inl err500),
       messages_get = (\<lambda>i. Inl err500),
       attachments_get = (\<lambda>i a. Inl err500),
       files_create = (\<lambda>f m d. Inl err500),
       ENCRYPTION_KEY = Some (replicate 64 CHR ''0''),
       ENCRYPTION_IV = Some (replicate 32 CHR ''0''),
       createCipheriv = (\<lambda>k v b. Some (rev b)),
       createDecipheriv = (\<lambda>k v b. Some (rev b)),
       decode_body = (\<lambda>b. b),
       to_date = (\<lambda>d. Some 0) \<rparr>"

definition world_base :: world where
  "world_base =
     \<lparr> token = Some \<lparr> access = ''at'', refresh = ''6162'', expiry = 0,
                      lastHistoryId = Some ''H100'' \<rparr>,
       emails = [], attachments = [], trace = [] \<rparr>"

definition stub :: "string \<Rightarrow> gmail_message" where
  "stub i = \<lparr> msg_id = Some i, msg_threadId = Some ''t'', msg_internalDate = None,
              msg_payload = None \<rparr>"

definition history_of :: "string list \<Rightarrow> string option \<Rightarrow> history_response" where
  "history_of ids h =
     \<lparr> history = Some [\<lparr> messagesAdded = Some (map (\<lambda>i. \<lparr> added_message = Some (stub i) \<rparr>) ids) \<rparr>],
       historyId = h \<rparr>"



text \<open>The listing returns the id \<open>m1\<close>, and its fetch answers 404.\<close>

definition env_gone :: env where
  "env_gone = env_base\<lparr>history_list := (\<lambda>h. Inr (history_of [''m1''] (Some ''H101''))),
                        messages_get := (\<lambda>i. Inl err404)\<rparr>"

text \<open>A full message with a \<open>Message-ID\<close> header and the given parts.\<close>

definition full_msg :: "string \<Rightarrow> string \<Rightarrow> part list \<Rightarrow> gmail_message" where
  "full_msg i mid ps =
     \<lparr> msg_id = Some i, msg_threadId = Some ''t'', msg_internalDate = Some ''1700000000000'',
       msg_payload = Some (Payload (Some [Header ''Subject'' ''hello'', Header ''Message-ID'' mid])
                                    (Some ps)) \<rparr>"

text \<open>
  The fetch of every id succeeds, and every insert into the Email table fails with an
  error that is no unique-constraint violation.
\<close>

definition env_db_down :: env where
  "env_db_down = env_base\<lparr>messages_get := (\<lambda>i. Inr (full_msg i (''<'' @ i @ ''@x>'') [])),
                           email_create_fault := (\<lambda>p. Some err500)\<rparr>"

text \<open>
  A tree with an inlined text part, a nested attachment, and an attachment without MIME
  type.
\<close>

definition example_parts :: "part list" where
  "example_parts =
     [Part None (Some ''text/plain'') (Some (PartBody None (Some ''aGVsbG8=''))) None,
      Part (Some ''inline.txt'') (Some ''text/plain'') (Some (PartBody None (Some ''aGk=''))) None,
      Part None (Some ''multipart/mixed'') None
        (Some [Part (Some ''a.pdf'') (Some ''application/pdf'') (Some (PartBody (Some ''att1'') None)) None]),
      Part (Some ''b.bin'') None (Some (PartBody (Some ''att2'') None)) None]"

text \<open>The row stored for the message \<open>m1\<close>.\<close>

definition saved_m1 :: email where
  "saved_m1 =
     \<lparr> email_id = 1,
       content = \<lparr> gmailId = Some ''m1'', threadId = Some ''t'', subject = Some ''hello'',
                   from_hdr = None, to_hdr = None, cc = None, bcc = None,
                   messageId = Some ''<m1@x>'', inReplyTo = None, references_hdr = None,
                   internalDate = Some 0, body_text = [] \<rparr> \<rparr>"

text \<open>A mailbox whose recent listing never ends: every page has a next page.\<close>

definition env_many_pages :: env where
  "env_many_pages =
     env_base\<lparr>messages_list := (\<lambda>t. Inr \<lparr> messages = Some [stub ''x''], nextPageToken = Some ''next'' \<rparr>)\<rparr>"

definition world_fresh :: world where
  "world_fresh =
     \<lparr> token = Some \<lparr> access = ''at'', refresh = ''6162'', expiry = 0, lastHistoryId = None \<rparr>,
       emails = [], attachments = [], trace = [] \<rparr>"

text \<open>
  Two well-formed attachment parts; every download returns data; the upload of the first
  fails and the upload of the second returns a file.
\<close>

definition part_a :: part where
  "part_a = Part (Some ''a.pdf'') (Some ''application/pdf'') (Some (PartBody (Some ''att1'') None)) None"

definition part_c :: part where
  "part_c = Part (Some ''c.png'') (Some ''image/png'') (Some (PartBody (Some ''att3'') None)) None"

definition env_upload_fails :: env where
  "env_upload_fails =
     env_base\<lparr>attachments_get := (\<lambda>i a. Inr (Some ''ZGF0YQ=='')),
              files_create := (\<lambda>f m d. if f = ''a.pdf'' then Inl err500
                                        else Inr (Some \<lparr> file_id = Some ''drv2'',
                                                         webViewLink = Some ''https://drive/2'' \<rparr>))\<rparr>"

definition world_m1 :: world where
  "world_m1 = world_base\<lparr>emails := [saved_m1]\<rparr>"

text \<open>
  Every download returns data and every upload but that of \<open>a.pdf\<close> returns a file; every
  insert into the Attachment table raises an error.
\<close>

definition env_insert_fails :: env where
  "env_insert_fails = env_upload_fails\<lparr>attachment_create_fault := (\<lambda>a. Some err500)\<rparr>"

text \<open>
  The scenario of the specification: the listing returns \<open>m1, m2\<close> and the new cursor
  \<open>H101\<close>; the fetch of \<open>m1\<close> succeeds and the fetch of \<open>m2\<close> throws.
\<close>

definition env_scenario :: env where
  "env_scenario =
     env_base\<lparr>history_list := (\<lambda>h. Inr (history_of [''m1'', ''m2''] (Some ''H101''))),
              messages_get := (\<lambda>i. if i = ''m2'' then Inl err500
                                     else Inr (full_msg i (''<'' @ i @ ''@x>'') []))\<rparr>"

text \<open>
  The environment with the cipher of the library, the key of Appendix C.3 of FIPS 197 and
  a vector of 16 bytes; the same with a key of 64 characters that are no hexadecimal
  digits, which the check of the module lets pass.
\<close>

definition env_aes :: env where
  "env_aes = env_base
     \<lparr> ENCRYPTION_KEY := Some ''000102030405060708090a0b0c0d0e0f101112131415161718191a1b1c1d1e1f'',
       ENCRYPTION_IV := Some ''000102030405060708090a0b0c0d0e0f'',
       createCipheriv := aes_256_cbc_encrypt,
       createDecipheriv := aes_256_cbc_decrypt \<rparr>"

definition env_bad_key :: env where
  "env_bad_key = env_aes\<lparr>ENCRYPTION_KEY := Some (replicate 64 CHR ''k'')\<rparr>"

text \<open>The refresh secret \<open>1//0gSecret\<close> and another string.\<close>

definition refresh_secret :: jsstring where
  "refresh_secret = [0x31, 0x2F, 0x2F, 0x30, 0x67, 0x53, 0x65, 0x63, 0x72, 0x65, 0x74]"

definition other_secret :: jsstring where
  "other_secret = [0x31, 0x2F, 0x2F, 0x30, 0x67, 0xD83D, 0xDE00]"

section \<open>Frame properties of the services\<close>

lemma logs_only_refl: "logs_only w w"
  by (simp add: logs_only_def)

lemma logs_only_trans: "logs_only w w1 \<Longrightarrow> logs_only w1 w2 \<Longrightarrow> logs_only w w2"
  by (auto simp: logs_only_def)

lemma logs_only_emit: "logs_only w (emit e w)"
  by (simp add: logs_only_def emit_def)

lemma logs_only_console: "logs_only w (console l m args w)"
  by (simp add: console_def logs_only_emit)

lemma logs_only_emit_after: "logs_only w w1 \<Longrightarrow> logs_only w (emit e w1)"
  using logs_only_emit logs_only_trans by blast

lemma logs_only_console_after: "logs_only w w1 \<Longrightarrow> logs_only w (console l m args w1)"
  using logs_only_console logs_only_trans by blast

lemma logs_only_api_details: "logs_only w w1 \<Longrightarrow> logs_only w (log_api_details l e w1)"
  by (simp add: log_api_details_def logs_only_console_after split: option.splits)

lemma decrypt_logs_only: "logs_only w (snd (decrypt env s w))"
  by (simp add: decrypt_def logs_only_refl logs_only_console split: option.splits)

lemma decrypt_logs_onlyD: "decrypt env s w = (r, w1) \<Longrightarrow> logs_only w w1"
  using decrypt_logs_only[of w env s] by simp

lemma getAuthenticatedClient_logs_only: "logs_only w (snd (getAuthenticatedClient env w))"
  by (auto simp: getAuthenticatedClient_def logs_only_refl logs_only_console_after
      split: sum.splits option.splits prod.splits dest: decrypt_logs_onlyD)

lemma fallback_pages_logs_only: "logs_only w (snd (fallback_pages env msgs tok page w))"
proof (induction env msgs tok page w rule: fallback_pages.induct)
  case (1 env msgs tok page w)
  let ?w2 = "emit (Remote (MessagesList (or_undefined tok)))
               (console LOG ''GmailService: Fallback messages.list page'' [or_else tok ''start''] w)"
  have w2: "logs_only w ?w2"
    by (simp add: logs_only_emit_after logs_only_console)
  show ?case
  proof (cases "messages_list env (or_undefined tok)")
    case (Inl e)
    then show ?thesis using w2 by (subst fallback_pages.simps) (simp add: Let_def)
  next
    case (Inr res)
    show ?thesis
    proof (cases "truthy (nextPageToken res) \<and> Suc page < MAX_INITIAL_FETCH_PAGES")
      case True
      have "logs_only ?w2 (snd (fallback_pages env
              (case messages res of Some ms \<Rightarrow> msgs @ ms | None \<Rightarrow> msgs)
              (nextPageToken res) (Suc page) ?w2))"
        using "1.IH"[OF refl refl refl Inr refl refl True] .
      then show ?thesis using w2 Inr True
        by (subst fallback_pages.simps) (auto simp: Let_def intro: logs_only_trans)
    next
      case False
      then show ?thesis using w2 Inr
        by (subst fallback_pages.simps) (auto simp: Let_def)
    qed
  qed
qed


lemma getAuthenticatedClient_logs_onlyD:
  "getAuthenticatedClient env w = (r, w1) \<Longrightarrow> logs_only w w1"
  using getAuthenticatedClient_logs_only[of w env] by simp

lemma fallback_pages_logs_onlyD:
  "fallback_pages env msgs tok page w = (r, w1) \<Longrightarrow> logs_only w w1"
  using fallback_pages_logs_only[of w env msgs tok page] by simp

lemma fallback_mode_logs_only: "logs_only w (snd (fallback_mode env w))"
proof -
  let ?w1 = "console WARN ''GmailService: No startHistoryId provided. Performing fallback using messages.list for recent emails.'' [] w"
  obtain r w2 where fp: "fallback_pages env [] None 0 ?w1 = (r, w2)" by (cases "fallback_pages env [] None 0 ?w1")
  have "logs_only w w2"
    using fallback_pages_logs_onlyD[OF fp] logs_only_console logs_only_trans by blast
  then show ?thesis using fp
    by (auto simp: fallback_mode_def Let_def logs_only_console_after split: sum.splits)
qed

lemma incremental_mode_logs_only: "logs_only w (snd (incremental_mode env h w))"
  by (simp add: incremental_mode_def Let_def logs_only_console_after logs_only_emit_after
      logs_only_console split: sum.splits)

lemma listNewEmailMessages_logs_only:
  "logs_only w (snd (listNewEmailMessages env startHistoryId w))"
proof -
  obtain r w1 where a: "getAuthenticatedClient env w = (r, w1)"
    by (cases "getAuthenticatedClient env w")
  have l1: "logs_only w w1" using a by (rule getAuthenticatedClient_logs_onlyD)
  let ?m = "if truthy startHistoryId then incremental_mode env (or_else startHistoryId []) w1
            else fallback_mode env w1"
  obtain r2 w2 where m: "?m = (r2, w2)" by (cases ?m)
  have "logs_only w1 (snd ?m)"
    by (simp add: incremental_mode_logs_only fallback_mode_logs_only)
  then have l2: "logs_only w w2" using m l1 logs_only_trans by fastforce
  show ?thesis
  proof (cases "truthy startHistoryId")
    case True
    then show ?thesis using a m l1 l2
      by (simp add: listNewEmailMessages_def logs_only_console_after logs_only_api_details
          split: sum.splits)
  next
    case False
    then show ?thesis using a m l1 l2
      by (simp add: listNewEmailMessages_def logs_only_console_after logs_only_api_details
          split: sum.splits)
  qed
qed

lemma getEmailContent_logs_only: "logs_only w (snd (getEmailContent env i w))"
proof -
  obtain r w1 where a: "getAuthenticatedClient env w = (r, w1)"
    by (cases "getAuthenticatedClient env w")
  have l1: "logs_only w w1" using a by (rule getAuthenticatedClient_logs_onlyD)
  show ?thesis
    using a l1
    by (simp add: getEmailContent_def Let_def logs_only_console logs_only_console_after logs_only_emit_after
        logs_only_api_details split: sum.splits)
qed

lemma downloadAttachment_logs_only: "logs_only w (snd (downloadAttachment env i a w))"
proof -
  obtain r w1 where a: "getAuthenticatedClient env w = (r, w1)"
    by (cases "getAuthenticatedClient env w")
  have l1: "logs_only w w1" using a by (rule getAuthenticatedClient_logs_onlyD)
  show ?thesis
    using a l1
    by (simp add: downloadAttachment_def Let_def logs_only_console logs_only_console_after logs_only_emit_after
        logs_only_api_details split: sum.splits)
qed

lemma files_create_checked_logs_only:
  "logs_only w (snd (files_create_checked env f m d w))"
  by (simp add: files_create_checked_def Let_def logs_only_console_after logs_only_emit
      split: sum.splits option.splits)

lemma uploadToDrive_logs_only: "logs_only w (snd (uploadToDrive env f m d w))"
proof -
  obtain r w1 where a: "getAuthenticatedClient env w = (r, w1)"
    by (cases "getAuthenticatedClient env w")
  have l1: "logs_only w w1" using a by (rule getAuthenticatedClient_logs_onlyD)
  obtain r2 w2 where c: "files_create_checked env f m d w1 = (r2, w2)"
    by (cases "files_create_checked env f m d w1")
  have "logs_only w1 w2" using files_create_checked_logs_only[of w1 env f m d] c by simp
  then have l2: "logs_only w w2" using l1 logs_only_trans by blast
  show ?thesis
    using a c l1 l2
    by (simp add: uploadToDrive_def logs_only_refl logs_only_console_after logs_only_api_details
        split: sum.splits)
qed

section \<open>The results of the services depend on the database only\<close>

lemma decrypt_fst: "fst (decrypt env s w') = fst (decrypt env s w)"
  by (simp add: decrypt_def split: option.splits)

lemma getAuthenticatedClient_fst:
  "token w' = token w \<Longrightarrow> fst (getAuthenticatedClient env w') = fst (getAuthenticatedClient env w)"
  by (simp add: getAuthenticatedClient_def token_findUnique_def decrypt_def
      split: option.splits sum.splits)

lemma auth_ok_token: "token w' = token w \<Longrightarrow> auth_ok env w' = auth_ok env w"
  using getAuthenticatedClient_fst[of w' w env] by (simp add: auth_ok_def)

lemma auth_ok_logs_only: "logs_only w w' \<Longrightarrow> auth_ok env w' = auth_ok env w"
  using auth_ok_token[of w' w env] by (simp add: logs_only_def)

lemma fallback_pages_fst:
  "fst (fallback_pages env msgs tok page w') = fst (fallback_pages env msgs tok page w)"
proof (induction env msgs tok page w arbitrary: w' rule: fallback_pages.induct)
  case (1 env msgs tok page w)
  show ?case
  proof (cases "messages_list env (or_undefined tok)")
    case (Inl e)
    then show ?thesis
      by (subst fallback_pages.simps, subst (2) fallback_pages.simps) (simp add: Let_def)
  next
    case (Inr res)
    show ?thesis
    proof (cases "truthy (nextPageToken res) \<and> Suc page < MAX_INITIAL_FETCH_PAGES")
      case True
      show ?thesis
        using Inr True "1.IH"[OF refl refl refl Inr refl refl True]
        by (subst fallback_pages.simps, subst (2) fallback_pages.simps) (simp add: Let_def)
    next
      case False
      then show ?thesis using Inr
        by (subst fallback_pages.simps, subst (2) fallback_pages.simps) (auto simp: Let_def)
    qed
  qed
qed

lemma fallback_mode_fst: "fst (fallback_mode env w') = fst (fallback_mode env w)"
proof -
  let ?a = "console WARN ''GmailService: No startHistoryId provided. Performing fallback using messages.list for recent emails.'' []"
  have "fst (fallback_pages env [] None 0 (?a w')) = fst (fallback_pages env [] None 0 (?a w))"
    by (rule fallback_pages_fst)
  then show ?thesis
    by (cases "fallback_pages env [] None 0 (?a w')"; cases "fallback_pages env [] None 0 (?a w)")
       (auto simp: fallback_mode_def Let_def split: sum.splits)
qed

lemma incremental_mode_fst: "fst (incremental_mode env h w') = fst (incremental_mode env h w)"
  by (simp add: incremental_mode_def Let_def split: sum.splits)

lemma listNewEmailMessages_fst:
  assumes "token w' = token w"
  shows "fst (listNewEmailMessages env c w') = fst (listNewEmailMessages env c w)"
proof -
  obtain r w1 where a: "getAuthenticatedClient env w = (r, w1)"
    by (cases "getAuthenticatedClient env w")
  obtain r' w1' where a': "getAuthenticatedClient env w' = (r', w1')"
    by (cases "getAuthenticatedClient env w'")
  have rr: "r' = r" using getAuthenticatedClient_fst[OF assms, of env] a a' by simp
  let ?m = "\<lambda>w. if truthy c then incremental_mode env (or_else c []) w else fallback_mode env w"
  have mm: "fst (?m w1') = fst (?m w1)"
    using incremental_mode_fst[of env "or_else c []" w1' w1] fallback_mode_fst[of env w1' w1]
    by simp
  obtain r2 w2 where m: "?m w1 = (r2, w2)" by (cases "?m w1")
  obtain r2' w2' where m': "?m w1' = (r2', w2')" by (cases "?m w1'")
  have r2: "r2' = r2" using mm m m' by simp
  show ?thesis
  proof (cases "truthy c")
    case True
    then show ?thesis using a a' rr m m' r2
      by (simp add: listNewEmailMessages_def split: sum.splits)
  next
    case False
    then show ?thesis using a a' rr m m' r2
      by (simp add: listNewEmailMessages_def split: sum.splits)
  qed
qed

section \<open>Frame properties of item processing\<close>

lemma emit_fields [simp]:
  "token (emit e w) = token w" "emails (emit e w) = emails w"
  "attachments (emit e w) = attachments w" "trace (emit e w) = trace w @ [e]"
  by (simp_all add: emit_def)

lemma console_fields [simp]:
  "token (console l m a w) = token w" "emails (console l m a w) = emails w"
  "attachments (console l m a w) = attachments w"
  "trace (console l m a w) = trace w @ [Console l m (map Str a)]"
  by (simp_all add: console_def)

lemma attachment_create_fields:
  assumes "attachment_create env a w = Inr w'"
  shows "token w' = token w" "emails w' = emails w"
    "attachments w' = attachments w @ [a]" "trace w' = trace w"
    "attachment_create_fault env a = None"
  using assms by (auto simp: attachment_create_def split: option.splits)

lemma downloadAttachment_logs_onlyD:
  "downloadAttachment env i a w = (r, w1) \<Longrightarrow> logs_only w w1"
  using downloadAttachment_logs_only[of w env i a] by simp

lemma uploadToDrive_logs_onlyD:
  "uploadToDrive env f m d w = (r, w1) \<Longrightarrow> logs_only w w1"
  using uploadToDrive_logs_only[of w env f m d] by simp

lemma getEmailContent_logs_onlyD:
  "getEmailContent env i w = (r, w1) \<Longrightarrow> logs_only w w1"
  using getEmailContent_logs_only[of w env i] by simp

lemma listNewEmailMessages_logs_onlyD:
  "listNewEmailMessages env c w = (r, w1) \<Longrightarrow> logs_only w w1"
  using listNewEmailMessages_logs_only[of w env c] by simp

lemma processPart_frame:
  "token (processPart env rawId saved p w) = token w
   \<and> emails (processPart env rawId saved p w) = emails w"
proof -
  let ?attId = "case body p of None \<Rightarrow> None | Some pb \<Rightarrow> attachmentId pb"
  let ?w1 = "console LOG ''Downloading attachment:'' [or_else (filename p) []] w"
  obtain r1 w2 where d: "downloadAttachment env rawId (or_else ?attId []) ?w1 = (r1, w2)"
    by (cases "downloadAttachment env rawId (or_else ?attId []) ?w1")
  have l2: "token w2 = token w \<and> emails w2 = emails w"
    using downloadAttachment_logs_onlyD[OF d] by (simp add: logs_only_def)
  show ?thesis
  proof (cases r1)
    case (Inl e)
    then show ?thesis using d l2 by (simp add: processPart_def Let_def)
  next
    case (Inr base64data)
    let ?w3 = "console LOG ''Uploading to Drive'' [or_else (filename p) []] w2"
    obtain r2 w4 where u: "uploadToDrive env (or_else (filename p) []) (or_else (mimeType p) [])
                              (or_else base64data []) ?w3 = (r2, w4)"
      by (cases "uploadToDrive env (or_else (filename p) []) (or_else (mimeType p) [])
                              (or_else base64data []) ?w3")
    have l4: "token w4 = token w \<and> emails w4 = emails w"
      using uploadToDrive_logs_onlyD[OF u] l2 by (simp add: logs_only_def)
    show ?thesis using d Inr u l2 l4
      by (cases r2)
         (simp_all add: processPart_def Let_def attachment_create_def split: option.splits)
  qed
qed

lemma fold_processPart_frame:
  "token (fold (processPart env rawId saved) ps w) = token w
   \<and> emails (fold (processPart env rawId saved) ps w) = emails w"
  by (induction ps arbitrary: w) (simp_all add: processPart_frame)

lemma email_create_token:
  "email_create env p w = Inr (e, w1) \<Longrightarrow> token w1 = token w \<and> attachments w1 = attachments w
     \<and> trace w1 = trace w \<and> emails w1 = emails w @ [e]"
  by (auto simp: email_create_def Let_def split: option.splits if_splits)

lemma saveEmail_token: "token (snd (saveEmail env p w)) = token w"
  by (cases "email_create env p w")
     (auto simp: saveEmail_def dest: email_create_token)

lemma saveEmail_None:
  "fst (saveEmail env p w) = None \<Longrightarrow> logs_only w (snd (saveEmail env p w))"
  by (cases "email_create env p w")
     (auto simp: saveEmail_def logs_only_console)

lemma processAndSaveEmail_token: "token (processAndSaveEmail env rawEmail w) = token w"
proof -
  have s: "\<And>p r w1. saveEmail env p w = (r, w1) \<Longrightarrow> token w1 = token w"
    using saveEmail_token by (metis snd_conv)
  show ?thesis
    by (auto simp: processAndSaveEmail_def Let_def fold_processPart_frame
        split: sum.splits option.splits prod.splits dest: s)
qed

lemma sync_one_token:
  "sync_one env m (s, f, w) = (s', f', w') \<Longrightarrow> token w' = token w"
proof -
  assume a: "sync_one env m (s, f, w) = (s', f', w')"
  let ?i = "or_else (msg_id m) []"
  let ?w1 = "console LOG ''Processing email with Gmail ID:'' [?i] w"
  obtain r w2 where g: "getEmailContent env ?i ?w1 = (r, w2)"
    by (cases "getEmailContent env ?i ?w1")
  have "token w2 = token w" using getEmailContent_logs_onlyD[OF g] by (simp add: logs_only_def)
  then show ?thesis using a g
    by (auto simp: sync_one_def Let_def processAndSaveEmail_token
        split: if_splits sum.splits option.splits)
qed

lemma fold_sync_one_token:
  "fold (sync_one env) ms (s, f, w) = (s', f', w') \<Longrightarrow> token w' = token w"
proof (induction ms arbitrary: s f w)
  case Nil
  then show ?case by simp
next
  case (Cons m ms)
  obtain s1 f1 w1 where st: "sync_one env m (s, f, w) = (s1, f1, w1)"
    by (cases "sync_one env m (s, f, w)") auto
  from Cons.prems st have "fold (sync_one env) ms (s1, f1, w1) = (s', f', w')" by simp
  then have "token w' = token w1" by (rule Cons.IH)
  then show ?case using sync_one_token[OF st] by simp
qed

lemma process_batch_token:
  "process_batch env ms w = (s, f, w') \<Longrightarrow> token w' = token w"
  unfolding process_batch_def by (rule fold_sync_one_token)


section \<open>The cursor after one cycle\<close>

lemma truthy_Some: "truthy nh \<Longrightarrow> Some (or_else nh []) = nh"
  by (auto simp: truthy_def or_else_def split: option.splits)

lemma token_update_cursor_Some:
  "token w = Some t \<Longrightarrow>
   token_update_cursor h w = Inr (emit (CursorWrite h) (w\<lparr>token := Some (t\<lparr>lastHistoryId := Some h\<rparr>)\<rparr>))"
  by (simp add: token_update_cursor_def)

lemma sync_body_token:
  assumes t: "token w = Some t"
  shows "token (snd (sync_body env cur w)) =
     (case fst (listNewEmailMessages env (or_undefined cur) w) of
        Inl e \<Rightarrow> Some t
      | Inr (msgs, nh) \<Rightarrow>
          if truthy nh \<and> (msgs = [] \<longrightarrow> nh \<noteq> cur) then Some (t\<lparr>lastHistoryId := nh\<rparr>) else Some t)"
proof -
  obtain r w1 where l: "listNewEmailMessages env (or_undefined cur) w = (r, w1)"
    by (cases "listNewEmailMessages env (or_undefined cur) w")
  have t1: "token w1 = Some t"
    using listNewEmailMessages_logs_onlyD[OF l] t by (simp add: logs_only_def)
  show ?thesis
  proof (cases r)
    case (Inl e)
    then show ?thesis using l t1 by (simp add: sync_body_def)
  next
    case (Inr res)
    obtain msgs nh where res: "res = (msgs, nh)" by (cases res)
    show ?thesis
    proof (cases "msgs = []")
      case True
      let ?w2 = "console LOG ''No new email messages to sync.'' [] w1"
      have t2: "token ?w2 = Some t" using t1 by simp
      show ?thesis
        using l Inr res True t1 token_update_cursor_Some[OF t2, of "or_else nh []"]
        by (auto simp: sync_body_def Let_def truthy_Some)
    next
      case False
      let ?w2 = "console LOG ''Found new email message(s) to process.'' [] w1"
      obtain s f w3 where b: "process_batch env msgs ?w2 = (s, f, w3)"
        by (cases "process_batch env msgs ?w2") auto
      have t3: "token w3 = Some t" using process_batch_token[OF b] t1 by simp
      let ?w4 = "emit (Console LOG ''Processing summary: succeeded, failed.'' [Num s, Num f]) w3"
      have t4: "token ?w4 = Some t" using t3 by simp
      show ?thesis
        using l Inr res False b t3 token_update_cursor_Some[OF t4, of "or_else nh []"]
        by (auto simp: sync_body_def Let_def truthy_Some)
    qed
  qed
qed

lemma listing_without_client:
  "fst (getAuthenticatedClient env w) = Inl e \<Longrightarrow> fst (listNewEmailMessages env c w) = Inl e"
  by (cases "getAuthenticatedClient env w") (simp add: listNewEmailMessages_def)

lemma cursor_after_cycle:
  "cursor (runEmailSync env w) =
     (case listing env w of
        Inl e \<Rightarrow> cursor w
      | Inr (msgs, nh) \<Rightarrow> if truthy nh then nh else cursor w)"
proof (cases "token_findUnique env w")
  case (Inl e)
  then have "fst (getAuthenticatedClient env w) = Inl e"
    by (simp add: getAuthenticatedClient_def)
  then have "listing env w = Inl e" unfolding listing_def by (rule listing_without_client)
  moreover have "token_findUnique env (console LOG ''Starting email synchronization cycle...'' [] w) = Inl e"
    using Inl by (simp add: token_findUnique_def split: option.splits)
  ultimately show ?thesis
    by (simp add: runEmailSync_def Let_def cursor_def)
next
  case (Inr tk)
  let ?w0 = "console LOG ''Starting email synchronization cycle...'' [] w"
  have f0: "token_findUnique env ?w0 = Inr tk"
    using Inr by (simp add: token_findUnique_def split: option.splits)
  have tk: "token w = tk" using Inr by (simp add: token_findUnique_def split: option.splits)
  show ?thesis
  proof (cases tk)
    case None
    then have "\<exists>e. fst (getAuthenticatedClient env w) = Inl e"
      using Inr by (simp add: getAuthenticatedClient_def)
    then obtain e where "listing env w = Inl e"
      unfolding listing_def using listing_without_client by blast
    then show ?thesis using f0 None tk
      by (simp add: runEmailSync_def Let_def cursor_def)
  next
    case (Some t)
    show ?thesis
    proof (cases "refresh t = []")
      case True
      then have "\<exists>e. fst (getAuthenticatedClient env w) = Inl e"
        using Inr Some by (simp add: getAuthenticatedClient_def)
      then obtain e where "listing env w = Inl e"
        unfolding listing_def using listing_without_client by blast
      then show ?thesis using f0 Some tk True
        by (simp add: runEmailSync_def Let_def cursor_def)
    next
      case False
      let ?cur = "lastHistoryId t"
      let ?w1 = "console LOG ''Current last processed Gmail History ID:''
                   [or_else ?cur ''None (first sync or reset)''] ?w0"
      have t1: "token ?w1 = Some t" using tk Some by simp
      have li: "fst (listNewEmailMessages env (or_undefined ?cur) ?w1) = listing env w"
        unfolding listing_def using listNewEmailMessages_fst[of ?w1 w env "or_undefined ?cur"] tk Some
        by (simp add: cursor_def)
      obtain r w2 where sb: "sync_body env ?cur ?w1 = (r, w2)" by (cases "sync_body env ?cur ?w1")
      have tok2: "token w2 =
         (case listing env w of
            Inl e \<Rightarrow> Some t
          | Inr (msgs, nh) \<Rightarrow>
              if truthy nh \<and> (msgs = [] \<longrightarrow> nh \<noteq> ?cur) then Some (t\<lparr>lastHistoryId := nh\<rparr>) else Some t)"
        using sync_body_token[OF t1, of env ?cur] sb li by simp
      have fin: "token (runEmailSync env w) = token w2"
        using f0 Some False sb
        by (cases r) (simp_all add: runEmailSync_def Let_def split: option.splits)
      show ?thesis
        using fin tok2 tk Some
        by (auto simp: cursor_def split: sum.splits prod.splits)
    qed
  qed
qed

section \<open>C1: the cursor across cycles\<close>

lemmas eval_defs =
  env_base_def world_base_def err500_def err404_def stub_def history_of_def
  listing_def cursor_def run_cycles_def runEmailSync_def sync_body_def process_batch_def sync_one_def
  listNewEmailMessages_def incremental_mode_def fallback_mode_def collect_added_def
  getAuthenticatedClient_def token_findUnique_def decrypt_def key_def iv_def
  getEmailContent_def downloadAttachment_def uploadToDrive_def files_create_checked_def
  processAndSaveEmail_def processPart_def parseEmailContent_def getHeader_def toLowerCase_def
  saveEmail_def email_create_def attachment_create_def unique_violation_def P2002_def
  token_update_cursor_def log_api_details_def plain_error_def
  truthy_def or_undefined_def or_else_def List.map_filter_def Let_def
  MAX_INITIAL_FETCH_PAGES_def

lemma run_cycles_snoc: "run_cycles (envs @ [env]) w = runEmailSync env (run_cycles envs w)"
  by (simp add: run_cycles_def)

lemma run_cycles_take_Suc:
  "i < length envs \<Longrightarrow>
   run_cycles (take (Suc i) envs) w = runEmailSync (envs ! i) (run_cycles (take i envs) w)"
  by (simp add: take_Suc_conv_app_nth run_cycles_snoc)

lemma cycle_cursor_cases:
  "cursor (runEmailSync env w) = cursor w
   \<or> (\<exists>msgs h. listing env w = Inr (msgs, Some h) \<and> cursor (runEmailSync env w) = Some h)"
  by (auto simp: cursor_after_cycle truthy_def split: sum.splits option.splits)

lemma cycle_cursor_error:
  "listing env w = Inl e \<Longrightarrow> cursor (runEmailSync env w) = cursor w"
  by (simp add: cursor_after_cycle)

lemma run_cycles_cursor:
  "cursor (run_cycles envs w) = cursor w
   \<or> (\<exists>i<length envs. \<exists>msgs h.
         listing (envs ! i) (run_cycles (take i envs) w) = Inr (msgs, Some h)
         \<and> cursor (run_cycles envs w) = Some h)"
proof (induction envs rule: rev_induct)
  case Nil
  then show ?case by (simp add: run_cycles_def)
next
  case (snoc env envs)
  let ?w = "run_cycles envs w"
  have step: "cursor (runEmailSync env ?w) = cursor ?w
      \<or> (\<exists>msgs h. listing env ?w = Inr (msgs, Some h) \<and> cursor (runEmailSync env ?w) = Some h)"
    by (rule cycle_cursor_cases)
  then show ?case
  proof
    assume same: "cursor (runEmailSync env ?w) = cursor ?w"
    from snoc.IH show ?thesis
    proof
      assume "cursor ?w = cursor w"
      then show ?thesis using same by (simp add: run_cycles_snoc)
    next
      assume "\<exists>i<length envs. \<exists>msgs h.
         listing (envs ! i) (run_cycles (take i envs) w) = Inr (msgs, Some h)
         \<and> cursor ?w = Some h"
      then obtain i msgs h where i: "i < length envs"
        and l: "listing (envs ! i) (run_cycles (take i envs) w) = Inr (msgs, Some h)"
        and c: "cursor ?w = Some h" by blast
      have "i < length (envs @ [env])" using i by simp
      moreover have "listing ((envs @ [env]) ! i) (run_cycles (take i (envs @ [env])) w) = Inr (msgs, Some h)"
        using i l by (simp add: nth_append)
      moreover have "cursor (run_cycles (envs @ [env]) w) = Some h"
        using same c by (simp add: run_cycles_snoc)
      ultimately show ?thesis by blast
    qed
  next
    assume "\<exists>msgs h. listing env ?w = Inr (msgs, Some h) \<and> cursor (runEmailSync env ?w) = Some h"
    then obtain msgs h where l: "listing env ?w = Inr (msgs, Some h)"
      and c: "cursor (runEmailSync env ?w) = Some h" by blast
    have "length envs < length (envs @ [env])" by simp
    moreover have "listing ((envs @ [env]) ! length envs) (run_cycles (take (length envs) (envs @ [env])) w)
        = Inr (msgs, Some h)"
      using l by simp
    moreover have "cursor (run_cycles (envs @ [env]) w) = Some h"
      using c by (simp add: run_cycles_snoc)
    ultimately show ?thesis by blast
  qed
qed

text \<open>
  C1. In every cycle of a sequence of cycles, the persisted cursor after the cycle is the
  cursor before it, or it is the new cursor returned by the successful listing call of that
  cycle; when the listing call of a cycle raised an error, the cursor after the cycle is the
  cursor before it. Hence the cursor after the whole sequence is the initial one or a new
  cursor returned by a successful listing call of one of the cycles. A cursor is an opaque
  token: no value other than one the remote service has just returned is ever written, which
  is what not rewinding it means for the engine.
\<close>

theorem cursor_monotonicity:
  "(\<forall>i<length envs.
      (cursor (run_cycles (take (Suc i) envs) w) = cursor (run_cycles (take i envs) w)
       \<or> (\<exists>msgs h. listing (envs ! i) (run_cycles (take i envs) w) = Inr (msgs, Some h)
             \<and> cursor (run_cycles (take (Suc i) envs) w) = Some h))
      \<and> (\<forall>e. listing (envs ! i) (run_cycles (take i envs) w) = Inl e
             \<longrightarrow> cursor (run_cycles (take (Suc i) envs) w) = cursor (run_cycles (take i envs) w)))
   \<and> (cursor (run_cycles envs w) = cursor w
       \<or> (\<exists>i<length envs. \<exists>msgs h.
             listing (envs ! i) (run_cycles (take i envs) w) = Inr (msgs, Some h)
             \<and> cursor (run_cycles envs w) = Some h))"
proof (intro conjI allI impI)
  fix i assume "i < length envs"
  then show "cursor (run_cycles (take (Suc i) envs) w) = cursor (run_cycles (take i envs) w)
       \<or> (\<exists>msgs h. listing (envs ! i) (run_cycles (take i envs) w) = Inr (msgs, Some h)
             \<and> cursor (run_cycles (take (Suc i) envs) w) = Some h)"
    using cycle_cursor_cases[of "envs ! i" "run_cycles (take i envs) w"]
    by (simp add: run_cycles_take_Suc)
next
  fix i e assume "i < length envs" "listing (envs ! i) (run_cycles (take i envs) w) = Inl e"
  then show "cursor (run_cycles (take (Suc i) envs) w) = cursor (run_cycles (take i envs) w)"
    by (simp add: run_cycles_take_Suc cycle_cursor_error)
next
  show "cursor (run_cycles envs w) = cursor w
       \<or> (\<exists>i<length envs. \<exists>msgs h.
             listing (envs ! i) (run_cycles (take i envs) w) = Inr (msgs, Some h)
             \<and> cursor (run_cycles envs w) = Some h)"
    by (rule run_cycles_cursor)
qed

text \<open>
  A sequence of two cycles from the cursor \<open>H100\<close>: the listing of the first raises, and
  the cursor stays; the listing of the second returns \<open>H101\<close>, which is then the cursor.
\<close>

theorem cursor_monotonicity_witness:
  "listing env_base world_base = Inl err500
   \<and> cursor (run_cycles (take (Suc 0) [env_base, env_base\<lparr>history_list := (\<lambda>h. Inr (history_of [] (Some ''H101'')))\<rparr>]) world_base)
       = cursor (run_cycles (take 0 [env_base, env_base\<lparr>history_list := (\<lambda>h. Inr (history_of [] (Some ''H101'')))\<rparr>]) world_base)
   \<and> cursor (run_cycles [env_base, env_base\<lparr>history_list := (\<lambda>h. Inr (history_of [] (Some ''H101'')))\<rparr>] world_base)
       = Some ''H101''"
proof -
  let ?envs = "[env_base, env_base\<lparr>history_list := (\<lambda>h. Inr (history_of [] (Some ''H101'')))\<rparr>]"
  have l: "listing env_base world_base = Inl err500"
    by (simp add: eval_defs console_def emit_def)
  have l0: "listing (?envs ! 0) (run_cycles (take 0 ?envs) world_base) = Inl err500"
    using l by (simp add: run_cycles_def)
  have "0 < length ?envs" by simp
  with cursor_monotonicity[of ?envs world_base] l0
  have "cursor (run_cycles (take (Suc 0) ?envs) world_base) = cursor (run_cycles (take 0 ?envs) world_base)"
    by blast
  moreover have "cursor (run_cycles ?envs world_base) = Some ''H101''"
    by (simp add: eval_defs console_def emit_def)
  ultimately show ?thesis using l by blast
qed

section \<open>C2: the commit of the cursor after the batch\<close>

lemma listing_Inr_token:
  assumes "fst (listNewEmailMessages env c w) = Inr r"
  shows "\<exists>t. token w = Some t \<and> refresh t \<noteq> [] \<and> token_findUnique env w = Inr (Some t)"
proof -
  have "\<not> (\<exists>e. fst (getAuthenticatedClient env w) = Inl e)"
    using assms listing_without_client by fastforce
  then show ?thesis
    by (auto simp: getAuthenticatedClient_def token_findUnique_def
        split: option.splits sum.splits if_splits)
qed





section \<open>C6: an item that is not found\<close>

lemma getEmailContent_result:
  assumes "auth_ok env w" and "i \<noteq> []"
  shows "fst (getEmailContent env i w) =
     (case messages_get env i of
        Inr res \<Rightarrow> Inr (Some res)
      | Inl e \<Rightarrow> if code e = NumCode 404 then Inr None else Inl e)"
proof -
  obtain r w1 where a: "getAuthenticatedClient env w = (r, w1)"
    by (cases "getAuthenticatedClient env w")
  then have "r = Inr ()" using assms(1) by (simp add: auth_ok_def)
  then show ?thesis using a assms(2)
    by (simp add: getEmailContent_def Let_def split: sum.splits)
qed

lemma sync_one_not_found:
  assumes g: "fst (getEmailContent env i (console LOG ''Processing email with Gmail ID:'' [i] w)) = Inr None"
    and i: "i \<noteq> []" and m: "msg_id m = Some i"
  shows "\<exists>w'. sync_one env m (s, f, w) = (s, Suc f, w') \<and> logs_only w w'
     \<and> last (trace w') = Console ERROR ''Failed to fetch full content for email with Gmail ID. Skipping.'' [Str i]"
proof -
  let ?w1 = "console LOG ''Processing email with Gmail ID:'' [i] w"
  obtain r w2 where ge: "getEmailContent env i ?w1 = (r, w2)" by (cases "getEmailContent env i ?w1")
  have r: "r = Inr None" using g ge by simp
  have l2: "logs_only w w2"
    using getEmailContent_logs_onlyD[OF ge] by (auto simp: logs_only_def)
  let ?w' = "console ERROR ''Failed to fetch full content for email with Gmail ID. Skipping.'' [i] w2"
  have "sync_one env m (s, f, w) = (s, Suc f, ?w')"
    using ge r i m by (simp add: sync_one_def Let_def truthy_def or_else_def)
  moreover have "logs_only w ?w'" using l2 by (auto simp: logs_only_def)
  moreover have "last (trace ?w') = Console ERROR ''Failed to fetch full content for email with Gmail ID. Skipping.'' [Str i]"
    by simp
  ultimately show ?thesis by blast
qed

text \<open>
  C6, as amended. With a live client and a non-empty id, \<open>getEmailContent\<close> returns
  \<open>None\<close> when the remote answers with an error whose code is 404 and throws every other
  remote error again. When it returns \<open>None\<close> for the id of a header, the loop body
  leaves the database as it is, prints the error line that the content could not be
  fetched, counts the item as failed (the count of succeeded items stays), and the loop
  goes on with the rest of the batch from there.
\<close>

theorem not_found_is_skipped_and_counted:
  assumes "auth_ok env w" and "i \<noteq> []" and "msg_id m = Some i"
  shows "(\<forall>e. messages_get env i = Inl e \<longrightarrow>
            fst (getEmailContent env i w) = (if code e = NumCode 404 then Inr None else Inl e))
     \<and> (fst (getEmailContent env i w) = Inr None \<longrightarrow>
          (\<exists>w'. sync_one env m (s, f, w) = (s, Suc f, w') \<and> logs_only w w'
             \<and> last (trace w') =
                 Console ERROR ''Failed to fetch full content for email with Gmail ID. Skipping.'' [Str i]
             \<and> fold (sync_one env) (m # rest) (s, f, w) = fold (sync_one env) rest (s, Suc f, w')))"
proof (intro conjI allI impI)
  fix e assume "messages_get env i = Inl e"
  then show "fst (getEmailContent env i w) = (if code e = NumCode 404 then Inr None else Inl e)"
    using getEmailContent_result[OF assms(1) assms(2)] by simp
next
  assume n: "fst (getEmailContent env i w) = Inr None"
  let ?w1 = "console LOG ''Processing email with Gmail ID:'' [i] w"
  have "auth_ok env ?w1" using assms(1) auth_ok_token[of ?w1 w env] by simp
  then have "fst (getEmailContent env i ?w1) = fst (getEmailContent env i w)"
    using getEmailContent_result[OF _ assms(2)] assms(1) by simp
  then have "fst (getEmailContent env i ?w1) = Inr None" using n by simp
  from sync_one_not_found[OF this assms(2) assms(3), of s f]
  obtain w' where s1: "sync_one env m (s, f, w) = (s, Suc f, w')" and l: "logs_only w w'"
    and t: "last (trace w') =
              Console ERROR ''Failed to fetch full content for email with Gmail ID. Skipping.'' [Str i]"
    by blast
  have "fold (sync_one env) (m # rest) (s, f, w) = fold (sync_one env) rest (s, Suc f, w')"
    using s1 by simp
  with s1 l t
  show "\<exists>w'. sync_one env m (s, f, w) = (s, Suc f, w') \<and> logs_only w w'
             \<and> last (trace w') =
                 Console ERROR ''Failed to fetch full content for email with Gmail ID. Skipping.'' [Str i]
             \<and> fold (sync_one env) (m # rest) (s, f, w) = fold (sync_one env) rest (s, Suc f, w')"
    by blast
qed

text \<open>The id \<open>m1\<close> whose fetch answers 404: \<open>None\<close>, and one failure counted.\<close>

theorem not_found_is_skipped_and_counted_witness:
  "auth_ok env_gone world_base \<and> messages_get env_gone ''m1'' = Inl err404
   \<and> fst (getEmailContent env_gone ''m1'' world_base) = Inr None
   \<and> fst (sync_one env_gone (stub ''m1'') (0, 0, world_base)) = 0
   \<and> fst (snd (sync_one env_gone (stub ''m1'') (0, 0, world_base))) = Suc 0"
proof -
  have a: "auth_ok env_gone world_base"
    by (simp add: auth_ok_def env_gone_def eval_defs)
  have i: "''m1'' \<noteq> []" and m: "msg_id (stub ''m1'') = Some ''m1''" by (simp_all add: stub_def)
  have g: "messages_get env_gone ''m1'' = Inl err404" by (simp add: env_gone_def)
  note th = not_found_is_skipped_and_counted[OF a i m, of 0 0 "[]"]
  have n: "fst (getEmailContent env_gone ''m1'' world_base) = Inr None"
    using th g by (simp add: err404_def)
  then have "\<exists>w'. sync_one env_gone (stub ''m1'') (0, 0, world_base) = (0, Suc 0, w')"
    using th by blast
  then have "fst (sync_one env_gone (stub ''m1'') (0, 0, world_base)) = 0
     \<and> fst (snd (sync_one env_gone (stub ''m1'') (0, 0, world_base))) = Suc 0"
    by auto
  with a g n show ?thesis by blast
qed

text \<open>
  The claim as stated fails: the id that is not found is not skipped silently, it is
  counted as failed and an error line is printed for it.
\<close>

theorem not_found_counterexample:
  "fst (getEmailContent env_gone ''m1'' world_base) = Inr None
   \<and> fst (process_batch env_gone [stub ''m1''] world_base) = 0
   \<and> fst (snd (process_batch env_gone [stub ''m1''] world_base)) = 1
   \<and> Console ERROR ''Failed to fetch full content for email with Gmail ID. Skipping.'' [Str ''m1'']
        \<in> set (trace (snd (snd (process_batch env_gone [stub ''m1''] world_base))))"
  by (simp add: env_gone_def eval_defs console_def emit_def)

section \<open>C9: a save that fails for another reason than a duplicate\<close>

lemma email_create_faulty:
  "email_create_fault env p = Some e \<Longrightarrow> email_create env p w = Inl e"
  by (simp add: email_create_def)

lemma saveEmail_on_error:
  "email_create env p w = Inl e \<Longrightarrow>
   fst (saveEmail env p w) = None \<and> logs_only w (snd (saveEmail env p w))"
  by (simp add: saveEmail_def logs_only_console)

lemma processAndSaveEmail_not_saved:
  assumes "truthy (msg_id full)" and "parseEmailContent env full = Inr p"
    and "fst (saveEmail env p w) = None"
  shows "logs_only w (processAndSaveEmail env full w)"
proof -
  obtain r w1 where s: "saveEmail env p w = (r, w1)" by (cases "saveEmail env p w")
  have "r = None" using assms(3) s by simp
  moreover have "logs_only w w1" using saveEmail_None[OF assms(3)] s by simp
  ultimately show ?thesis using assms(1,2) s
    by (simp add: processAndSaveEmail_def logs_only_console_after)
qed

lemma sync_one_fetched:
  assumes a: "auth_ok env w" and i: "i \<noteq> []" and m: "msg_id m = Some i"
    and g: "messages_get env i = Inr full"
  shows "\<exists>w2. logs_only w w2 \<and> sync_one env m (s, f, w) = (Suc s, f, processAndSaveEmail env full w2)"
proof -
  let ?w1 = "console LOG ''Processing email with Gmail ID:'' [i] w"
  obtain r w2 where ge: "getEmailContent env i ?w1 = (r, w2)" by (cases "getEmailContent env i ?w1")
  have "auth_ok env ?w1" using a auth_ok_token[of ?w1 w env] by simp
  then have r: "r = Inr (Some full)"
    using getEmailContent_result[of env ?w1 i] i g ge by simp
  have l2: "logs_only w w2"
    using getEmailContent_logs_onlyD[OF ge] by (auto simp: logs_only_def)
  have "sync_one env m (s, f, w) = (Suc s, f, processAndSaveEmail env full w2)"
    using ge r i m by (simp add: sync_one_def Let_def truthy_def or_else_def)
  with l2 show ?thesis by blast
qed

text \<open>
  C9. Whatever error the insert of an Email row raises, a unique-constraint violation or
  any other, \<open>saveEmail\<close> returns \<open>null\<close> and leaves the database as it is. When the
  insert of a fetched and parsed item fails with an arbitrary database error,
  \<open>processAndSaveEmail\<close> returns normally, so the loop body counts the item as succeeded
  (the count of failed items stays) although nothing was stored.
\<close>

theorem save_failure_counted_as_success:
  "(\<forall>e. email_create env p w = Inl e \<longrightarrow>
       fst (saveEmail env p w) = None \<and> logs_only w (snd (saveEmail env p w)))
   \<and> (auth_ok env w \<and> i \<noteq> [] \<and> msg_id m = Some i \<and> messages_get env i = Inr full
        \<and> truthy (msg_id full) \<and> parseEmailContent env full = Inr p
        \<and> email_create_fault env p = Some e'
      \<longrightarrow> (\<exists>w'. sync_one env m (s, f, w) = (Suc s, f, w') \<and> logs_only w w'))"
proof (intro conjI allI impI)
  fix e assume "email_create env p w = Inl e"
  then show "fst (saveEmail env p w) = None" "logs_only w (snd (saveEmail env p w))"
    using saveEmail_on_error by blast+
next
  assume h: "auth_ok env w \<and> i \<noteq> [] \<and> msg_id m = Some i \<and> messages_get env i = Inr full
        \<and> truthy (msg_id full) \<and> parseEmailContent env full = Inr p
        \<and> email_create_fault env p = Some e'"
  then obtain w2 where l2: "logs_only w w2"
    and so: "sync_one env m (s, f, w) = (Suc s, f, processAndSaveEmail env full w2)"
    using sync_one_fetched[of env w i m full s f] by blast
  have "email_create env p w2 = Inl e'" using h email_create_faulty by blast
  then have "fst (saveEmail env p w2) = None" using saveEmail_on_error by blast
  then have "logs_only w2 (processAndSaveEmail env full w2)"
    using h processAndSaveEmail_not_saved by blast
  then have "logs_only w (processAndSaveEmail env full w2)"
    using l2 logs_only_trans by blast
  with so show "\<exists>w'. sync_one env m (s, f, w) = (Suc s, f, w') \<and> logs_only w w'" by blast
qed

text \<open>
  The item \<open>m1\<close> is fetched and parsed, its insert fails with a server error: it is
  counted as succeeded and no Email row exists afterwards.
\<close>

theorem save_failure_counted_as_success_witness:
  "email_create env_db_down
      \<lparr> gmailId = Some ''m1'', threadId = Some ''t'', subject = Some ''hello'', from_hdr = None,
        to_hdr = None, cc = None, bcc = None, messageId = Some ''<m1@x>'', inReplyTo = None,
        references_hdr = None, internalDate = Some 0, body_text = [] \<rparr> world_base = Inl err500
   \<and> fst (sync_one env_db_down (stub ''m1'') (0, 0, world_base)) = Suc 0
   \<and> fst (snd (sync_one env_db_down (stub ''m1'') (0, 0, world_base))) = 0
   \<and> emails (snd (snd (sync_one env_db_down (stub ''m1'') (0, 0, world_base)))) = []"
proof -
  let ?p = "\<lparr> gmailId = Some ''m1'', threadId = Some ''t'', subject = Some ''hello'', from_hdr = None,
        to_hdr = None, cc = None, bcc = None, messageId = Some ''<m1@x>'', inReplyTo = None,
        references_hdr = None, internalDate = Some 0, body_text = [] \<rparr>"
  let ?full = "full_msg ''m1'' ''<m1@x>'' []"
  have c: "email_create env_db_down ?p world_base = Inl err500"
    by (simp add: env_db_down_def email_create_def env_base_def)
  have h: "auth_ok env_db_down world_base \<and> ''m1'' \<noteq> [] \<and> msg_id (stub ''m1'') = Some ''m1''
        \<and> messages_get env_db_down ''m1'' = Inr ?full
        \<and> truthy (msg_id ?full) \<and> parseEmailContent env_db_down ?full = Inr ?p
        \<and> email_create_fault env_db_down ?p = Some err500"
    by (simp add: auth_ok_def env_db_down_def full_msg_def eval_defs)
  from save_failure_counted_as_success[of env_db_down ?p world_base "''m1''" "stub ''m1''" ?full err500 0 0] h
  obtain w' where s: "sync_one env_db_down (stub ''m1'') (0, 0, world_base) = (Suc 0, 0, w')"
    and l: "logs_only world_base w'" by blast
  have "emails w' = []" using l by (simp add: logs_only_def world_base_def)
  with c s show ?thesis by simp
qed

section \<open>C8: the discovery of attachments\<close>

lemma qualifies_iff:
  "qualifies p \<longleftrightarrow>
     truthy (filename p) \<and> (\<exists>pb. body p = Some pb \<and> truthy (attachmentId pb))"
  by (cases "body p") (simp_all add: qualifies_def)

lemma findAttachments_filter:
  "findAttachments ps collected = collected @ filter qualifies (all_parts ps)"
proof (induction ps collected rule: findAttachments.induct)
  case (1 collected)
  then show ?case by simp
next
  case (2 fname mime b sub ps collected)
  let ?p = "Part fname mime b sub"
  let ?c1 = "if truthy fname \<and> truthy (case b of None \<Rightarrow> None | Some pb \<Rightarrow> attachmentId pb)
             then collected @ [?p] else collected"
  have q: "qualifies ?p \<longleftrightarrow> truthy fname \<and> truthy (case b of None \<Rightarrow> None | Some pb \<Rightarrow> attachmentId pb)"
    by (cases b) (simp_all add: qualifies_def truthy_def)
  have c1: "?c1 = collected @ filter qualifies [?p]" using q by simp
  let ?c2 = "case sub of None \<Rightarrow> ?c1 | Some s \<Rightarrow> if s \<noteq> [] then findAttachments s ?c1 else ?c1"
  have c2: "?c2 = ?c1 @ filter qualifies (case sub of None \<Rightarrow> [] | Some s \<Rightarrow> all_parts s)"
  proof (cases sub)
    case None
    then show ?thesis by simp
  next
    case (Some s)
    show ?thesis
    proof (cases "s = []")
      case True
      then show ?thesis using Some by simp
    next
      case False
      then show ?thesis using Some "2.IH"(1)[OF refl Some False] by simp
    qed
  qed
  have "findAttachments (?p # ps) collected = findAttachments ps ?c2"
    by (simp add: Let_def)
  also have "\<dots> = ?c2 @ filter qualifies (all_parts ps)"
    using "2.IH"(2)[OF refl refl] by simp
  finally show ?case using c1 c2 by simp
qed

text \<open>
  C8. \<open>findAttachments\<close> returns, after what was already collected, exactly the parts of
  the tree that have a non-empty file name and a body with a non-empty \<open>attachmentId\<close>,
  in the order of the walk; so a part is collected if and only if it is in the tree and
  has both, and a part whose body has no \<open>attachmentId\<close> (inlined content) is never
  collected. For a collected part that has no MIME type the loop body does nothing but
  print the warning that the part is malformed: the database is as before and the loop goes
  on with the next part.
\<close>

theorem attachment_discovery:
  "findAttachments ps collected = collected @ filter qualifies (all_parts ps)
   \<and> (p \<in> set (findAttachments ps []) \<longleftrightarrow>
        p \<in> set (all_parts ps) \<and> truthy (filename p)
        \<and> (\<exists>pb. body p = Some pb \<and> truthy (attachmentId pb)))
   \<and> (body p = None \<or> (\<exists>pb. body p = Some pb \<and> attachmentId pb = None)
        \<longrightarrow> p \<notin> set (findAttachments ps []))
   \<and> (p \<in> set (findAttachments ps []) \<and> \<not> truthy (mimeType p) \<longrightarrow>
        processPart env rawId saved p w =
          console WARN ''Skipping malformed attachment part: Missing attachmentId, filename, or mimeType.'' [] w
        \<and> fold (processPart env rawId saved) (p # rest) w =
          fold (processPart env rawId saved) rest
            (console WARN ''Skipping malformed attachment part: Missing attachmentId, filename, or mimeType.'' [] w))"
proof -
  have mem: "p \<in> set (findAttachments ps []) \<longleftrightarrow> p \<in> set (all_parts ps) \<and> qualifies p"
    by (simp add: findAttachments_filter)
  have inl: "body p = None \<or> (\<exists>pb. body p = Some pb \<and> attachmentId pb = None) \<longrightarrow> \<not> qualifies p"
    by (auto simp: qualifies_iff truthy_def)
  have skip: "\<not> truthy (mimeType p) \<longrightarrow>
        processPart env rawId saved p w =
          console WARN ''Skipping malformed attachment part: Missing attachmentId, filename, or mimeType.'' [] w"
    by (simp add: processPart_def Let_def)
  show ?thesis
    using mem inl skip by (auto simp: findAttachments_filter qualifies_iff)
qed

text \<open>
  On the example tree the two parts with a file name and an \<open>attachmentId\<close> are
  collected, the nested one included and the inlined ones not; the second has no MIME type
  and is skipped with the warning.
\<close>

theorem attachment_discovery_witness:
  "findAttachments example_parts [] =
     [Part (Some ''a.pdf'') (Some ''application/pdf'') (Some (PartBody (Some ''att1'') None)) None,
      Part (Some ''b.bin'') None (Some (PartBody (Some ''att2'') None)) None]
   \<and> Part (Some ''inline.txt'') (Some ''text/plain'') (Some (PartBody None (Some ''aGk=''))) None
        \<notin> set (findAttachments example_parts [])
   \<and> processPart env_base ''m1'' saved_m1
        (Part (Some ''b.bin'') None (Some (PartBody (Some ''att2'') None)) None) world_base
      = console WARN ''Skipping malformed attachment part: Missing attachmentId, filename, or mimeType.'' []
          world_base"
proof -
  let ?b = "Part (Some ''b.bin'') None (Some (PartBody (Some ''att2'') None)) None"
  let ?i = "Part (Some ''inline.txt'') (Some ''text/plain'') (Some (PartBody None (Some ''aGk=''))) None"
  have f: "findAttachments example_parts [] =
     [Part (Some ''a.pdf'') (Some ''application/pdf'') (Some (PartBody (Some ''att1'') None)) None, ?b]"
    by (simp add: example_parts_def truthy_def)
  have h1: "body ?i = None \<or> (\<exists>pb. body ?i = Some pb \<and> attachmentId pb = None)" by simp
  have h2: "?b \<in> set (findAttachments example_parts []) \<and> \<not> truthy (mimeType ?b)"
    using f by (simp add: truthy_def)
  from attachment_discovery[of example_parts "[]" ?i] h1
  have n: "?i \<notin> set (findAttachments example_parts [])" by blast
  from attachment_discovery[of example_parts "[]" ?b env_base "''m1''" "saved_m1" world_base "[]"] h2
  have "processPart env_base ''m1'' saved_m1 ?b world_base
      = console WARN ''Skipping malformed attachment part: Missing attachmentId, filename, or mimeType.'' []
          world_base" by blast
  with f n show ?thesis by blast
qed

section \<open>C7: the fallback mode\<close>

lemma fallback_pages_calls:
  assumes "page < MAX_INITIAL_FETCH_PAGES"
  shows "\<exists>t. trace (snd (fallback_pages env msgs tok page w)) = trace w @ t
      \<and> cap_warning \<notin> set t
      \<and> length (filter is_list_call t) \<le> MAX_INITIAL_FETCH_PAGES - page
      \<and> (\<forall>ms tk n. fst (fallback_pages env msgs tok page w) = Inr (ms, tk, n) \<longrightarrow>
            length (filter is_list_call t) = n - page \<and> page < n \<and> n \<le> MAX_INITIAL_FETCH_PAGES
            \<and> (truthy tk \<longrightarrow> n = MAX_INITIAL_FETCH_PAGES))"
  using assms
proof (induction env msgs tok page w rule: fallback_pages.induct)
  case (1 env msgs tok page w)
  let ?e1 = "Console LOG ''GmailService: Fallback messages.list page'' [Str (or_else tok ''start'')]"
  let ?e2 = "Remote (MessagesList (or_undefined tok))"
  let ?w2 = "emit ?e2 (console LOG ''GmailService: Fallback messages.list page'' [or_else tok ''start''] w)"
  have tw2: "trace ?w2 = trace w @ [?e1, ?e2]" by simp
  have nc: "cap_warning \<notin> set [?e1, ?e2]" by (simp add: cap_warning_def)
  have cnt: "length (filter is_list_call [?e1, ?e2]) = 1" by simp
  show ?case
  proof (cases "messages_list env (or_undefined tok)")
    case (Inl e)
    have "fallback_pages env msgs tok page w = (Inl e, ?w2)"
      using Inl by (subst fallback_pages.simps) (simp add: Let_def)
    then show ?thesis using tw2 nc cnt "1.prems" by auto
  next
    case (Inr res)
    let ?msgs' = "case messages res of Some ms \<Rightarrow> msgs @ ms | None \<Rightarrow> msgs"
    show ?thesis
    proof (cases "truthy (nextPageToken res) \<and> Suc page < MAX_INITIAL_FETCH_PAGES")
      case True
      have eq: "fallback_pages env msgs tok page w =
                fallback_pages env ?msgs' (nextPageToken res) (Suc page) ?w2"
        using Inr True by (subst fallback_pages.simps) (simp add: Let_def)
      from "1.IH"[OF refl refl refl Inr refl refl True] True
      obtain t where t: "trace (snd (fallback_pages env ?msgs' (nextPageToken res) (Suc page) ?w2)) = trace ?w2 @ t"
        and tc: "cap_warning \<notin> set t"
        and tl: "length (filter is_list_call t) \<le> MAX_INITIAL_FETCH_PAGES - Suc page"
        and tr: "\<forall>ms tk n. fst (fallback_pages env ?msgs' (nextPageToken res) (Suc page) ?w2) = Inr (ms, tk, n) \<longrightarrow>
            length (filter is_list_call t) = n - Suc page \<and> Suc page < n \<and> n \<le> MAX_INITIAL_FETCH_PAGES
            \<and> (truthy tk \<longrightarrow> n = MAX_INITIAL_FETCH_PAGES)"
        by blast
      let ?t = "[?e1, ?e2] @ t"
      have a: "trace (snd (fallback_pages env msgs tok page w)) = trace w @ ?t"
        using eq t tw2 by simp
      have b: "cap_warning \<notin> set ?t" using tc nc by simp
      have c: "length (filter is_list_call ?t) \<le> MAX_INITIAL_FETCH_PAGES - page"
        using tl True by simp arith
      have d: "\<forall>ms tk n. fst (fallback_pages env msgs tok page w) = Inr (ms, tk, n) \<longrightarrow>
            length (filter is_list_call ?t) = n - page \<and> page < n \<and> n \<le> MAX_INITIAL_FETCH_PAGES
            \<and> (truthy tk \<longrightarrow> n = MAX_INITIAL_FETCH_PAGES)"
        using tr eq by auto
      from a b c d show ?thesis by blast
    next
      case False
      have eq: "fallback_pages env msgs tok page w = (Inr (?msgs', nextPageToken res, Suc page), ?w2)"
        using Inr False by (subst fallback_pages.simps) (auto simp: Let_def)
      have "truthy (nextPageToken res) \<longrightarrow> Suc page = MAX_INITIAL_FETCH_PAGES"
        using False "1.prems" by auto
      then show ?thesis using eq tw2 nc cnt "1.prems" by auto
    qed
  qed
qed

lemma getAuthenticatedClient_trace:
  "\<exists>t. trace (snd (getAuthenticatedClient env w)) = trace w @ t
     \<and> cap_warning \<notin> set t \<and> filter is_list_call t = []"
  by (auto simp: getAuthenticatedClient_def decrypt_def cap_warning_def
      split: sum.splits option.splits)

lemma log_api_details_trace:
  "\<exists>t. trace (log_api_details l e w) = trace w @ t \<and> filter is_list_call t = []
     \<and> (\<forall>ev \<in> set t. \<exists>a. ev = Console ERROR l a)"
  by (auto simp: log_api_details_def split: option.splits)


lemma fallback_mode_calls:
  "\<exists>t. trace (snd (fallback_mode env w)) = trace w @ t
     \<and> length (filter is_list_call t) \<le> MAX_INITIAL_FETCH_PAGES
     \<and> (\<forall>msgs nc. fst (fallback_mode env w) = Inr (msgs, nc) \<longrightarrow>
           nc = None
           \<and> (cap_warning \<in> set t \<longleftrightarrow>
                (\<exists>ms tk. fst (fallback_pages env [] None 0 w) = Inr (ms, tk, MAX_INITIAL_FETCH_PAGES)
                   \<and> truthy tk)))"
proof -
  let ?e0 = "Console WARN ''GmailService: No startHistoryId provided. Performing fallback using messages.list for recent emails.'' []"
  let ?w1 = "console WARN ''GmailService: No startHistoryId provided. Performing fallback using messages.list for recent emails.'' [] w"
  have tw1: "trace ?w1 = trace w @ [?e0]" by simp
  obtain r w2 where fp: "fallback_pages env [] None 0 ?w1 = (r, w2)"
    by (cases "fallback_pages env [] None 0 ?w1")
  have fw: "fst (fallback_pages env [] None 0 w) = r"
    using fallback_pages_fst[of env "[]" None 0 w ?w1] fp by simp
  have "0 < MAX_INITIAL_FETCH_PAGES" by (simp add: MAX_INITIAL_FETCH_PAGES_def)
  from fallback_pages_calls[OF this, of env "[]" None ?w1] fp
  obtain t where t: "trace w2 = trace ?w1 @ t" and tc: "cap_warning \<notin> set t"
    and tl: "length (filter is_list_call t) \<le> MAX_INITIAL_FETCH_PAGES"
    and tr: "\<forall>ms tk n. r = Inr (ms, tk, n) \<longrightarrow>
            length (filter is_list_call t) = n \<and> 0 < n \<and> n \<le> MAX_INITIAL_FETCH_PAGES
            \<and> (truthy tk \<longrightarrow> n = MAX_INITIAL_FETCH_PAGES)"
    by auto
  have e0: "?e0 \<noteq> cap_warning" "\<not> is_list_call ?e0" by (simp_all add: cap_warning_def)
  show ?thesis
  proof (cases r)
    case (Inl e)
    then have "fallback_mode env w = (Inl e, w2)" using fp by (simp add: fallback_mode_def Let_def)
    then show ?thesis using t tw1 tl e0 by (auto intro!: exI[of _ "?e0 # t"])
  next
    case (Inr res)
    obtain ms tk n where res: "res = (ms, tk, n)" by (cases res)
    let ?cap = "n \<ge> MAX_INITIAL_FETCH_PAGES \<and> truthy tk"
    let ?e4 = "Console LOG ''GmailService: Fallback messages.list fetched message stubs.'' []"
    let ?t = "?e0 # t @ (if ?cap then [cap_warning] else []) @ [?e4]"
    have fm: "fallback_mode env w = (Inr (ms, None),
         console LOG ''GmailService: Fallback messages.list fetched message stubs.'' []
           (if ?cap then emit cap_warning w2 else w2))"
      using fp Inr res by (simp add: fallback_mode_def Let_def cap_warning_def console_def)
    have a: "trace (snd (fallback_mode env w)) = trace w @ ?t"
      using fm t tw1 by simp
    have lc: "\<not> is_list_call cap_warning" "\<not> is_list_call ?e4" "?e4 \<noteq> cap_warning"
      by (simp_all add: cap_warning_def)
    have b: "length (filter is_list_call ?t) \<le> MAX_INITIAL_FETCH_PAGES"
      using tl e0 lc by simp
    have n: "n \<le> MAX_INITIAL_FETCH_PAGES" using tr Inr res by blast
    have c: "cap_warning \<in> set ?t \<longleftrightarrow> ?cap" using tc e0 lc by auto
    have d: "?cap \<longleftrightarrow> (\<exists>ms tk. fst (fallback_pages env [] None 0 w) = Inr (ms, tk, MAX_INITIAL_FETCH_PAGES)
                   \<and> truthy tk)"
      using fw Inr res n by auto
    show ?thesis using a b c d fm by (intro exI[of _ ?t]) simp
  qed
qed

lemma listNewEmailMessages_fallback:
  assumes c: "\<not> truthy c"
  shows "\<exists>t. trace (snd (listNewEmailMessages env c w)) = trace w @ t
     \<and> length (filter is_list_call t) \<le> MAX_INITIAL_FETCH_PAGES
     \<and> (\<forall>msgs nc. fst (listNewEmailMessages env c w) = Inr (msgs, nc) \<longrightarrow>
           nc = None
           \<and> (cap_warning \<in> set t \<longleftrightarrow>
                (\<exists>ms tk. fst (fallback_pages env [] None 0 w) = Inr (ms, tk, MAX_INITIAL_FETCH_PAGES)
                   \<and> truthy tk)))"
proof -
  obtain r w1 where a: "getAuthenticatedClient env w = (r, w1)"
    by (cases "getAuthenticatedClient env w")
  from getAuthenticatedClient_trace[of env w] a
  obtain ta where ta: "trace w1 = trace w @ ta" and tac: "cap_warning \<notin> set ta"
    and tal: "filter is_list_call ta = []" by auto
  show ?thesis
  proof (cases r)
    case (Inl e)
    let ?ev = "Console ERROR ''GmailService: Failed to get authenticated client for listing messages:'' [Str (message e)]"
    have "listNewEmailMessages env c w = (Inl e, emit ?ev w1)"
      using a Inl by (simp add: listNewEmailMessages_def console_def)
    then show ?thesis using ta tal by (auto intro!: exI[of _ "ta @ [?ev]"])
  next
    case (Inr u)
    obtain r2 w2 where fm: "fallback_mode env w1 = (r2, w2)" by (cases "fallback_mode env w1")
    from fallback_mode_calls[of env w1] fm
    obtain tf where tf: "trace w2 = trace w1 @ tf"
      and tfl: "length (filter is_list_call tf) \<le> MAX_INITIAL_FETCH_PAGES"
      and tfr: "\<forall>msgs nc. r2 = Inr (msgs, nc) \<longrightarrow>
           nc = None
           \<and> (cap_warning \<in> set tf \<longleftrightarrow>
                (\<exists>ms tk. fst (fallback_pages env [] None 0 w1) = Inr (ms, tk, MAX_INITIAL_FETCH_PAGES)
                   \<and> truthy tk))"
      by auto
    have fpw: "fst (fallback_pages env [] None 0 w1) = fst (fallback_pages env [] None 0 w)"
      by (rule fallback_pages_fst)
    show ?thesis
    proof (cases r2)
      case (Inl e)
      let ?w3 = "console ERROR ''GmailService: Error listing new email messages from Gmail API:'' [message e] w2"
      from log_api_details_trace[of "''Google API Error details (Gmail List):''" e ?w3]
      obtain td where td: "trace (log_api_details ''Google API Error details (Gmail List):'' e ?w3) = trace ?w3 @ td"
        and tdl: "filter is_list_call td = []" by blast
      have "listNewEmailMessages env c w =
              (Inl e, log_api_details ''Google API Error details (Gmail List):'' e ?w3)"
        using a Inr fm Inl c by (simp add: listNewEmailMessages_def)
      then show ?thesis using ta tf td tal tfl tdl
        by (auto intro!: exI[of _ "ta @ tf @ Console ERROR ''GmailService: Error listing new email messages from Gmail API:'' [Str (message e)] # td"])
    next
      case (Inr res)
      have "listNewEmailMessages env c w = (Inr res, w2)"
        using a \<open>r = Inr u\<close> fm Inr c by (simp add: listNewEmailMessages_def)
      then show ?thesis using ta tf tal tfl tfr Inr tac fpw
        by (intro exI[of _ "ta @ tf"]) auto
    qed
  qed
qed

text \<open>
  C7. When the lister is called without a cursor (absent, or the empty string, which the
  source takes for absent), it calls \<open>messages.list\<close> at most \<open>MAX_INITIAL_FETCH_PAGES\<close>
  = 5 times; when it returns, the new cursor it returns is \<open>None\<close>, and it has printed
  the warning about the cap exactly when the loop stopped after the fifth page with a next
  page token still present. A cycle that starts without a stored cursor leaves the stored
  cursor as it was.
\<close>

theorem fallback_mode_contract:
  assumes "\<not> truthy c"
  shows "MAX_INITIAL_FETCH_PAGES = 5
     \<and> (\<exists>t. trace (snd (listNewEmailMessages env c w)) = trace w @ t
          \<and> length (filter is_list_call t) \<le> MAX_INITIAL_FETCH_PAGES
          \<and> (\<forall>msgs nc. fst (listNewEmailMessages env c w) = Inr (msgs, nc) \<longrightarrow>
                nc = None
                \<and> (cap_warning \<in> set t \<longleftrightarrow>
                     (\<exists>ms tk. fst (fallback_pages env [] None 0 w) = Inr (ms, tk, MAX_INITIAL_FETCH_PAGES)
                        \<and> truthy tk))))
     \<and> (cursor w = c \<longrightarrow> cursor (runEmailSync env w) = cursor w)"
proof (intro conjI impI)
  show "MAX_INITIAL_FETCH_PAGES = 5" by (simp add: MAX_INITIAL_FETCH_PAGES_def)
next
  show "\<exists>t. trace (snd (listNewEmailMessages env c w)) = trace w @ t
          \<and> length (filter is_list_call t) \<le> MAX_INITIAL_FETCH_PAGES
          \<and> (\<forall>msgs nc. fst (listNewEmailMessages env c w) = Inr (msgs, nc) \<longrightarrow>
                nc = None
                \<and> (cap_warning \<in> set t \<longleftrightarrow>
                     (\<exists>ms tk. fst (fallback_pages env [] None 0 w) = Inr (ms, tk, MAX_INITIAL_FETCH_PAGES)
                        \<and> truthy tk)))"
    using assms by (rule listNewEmailMessages_fallback)
next
  assume cw: "cursor w = c"
  have nt: "\<not> truthy (or_undefined (cursor w))"
    using assms cw by (simp add: or_undefined_def truthy_def)
  from listNewEmailMessages_fallback[OF nt, of env w]
  have "\<forall>msgs nc. listing env w = Inr (msgs, nc) \<longrightarrow> nc = None"
    unfolding listing_def by blast
  then show "cursor (runEmailSync env w) = cursor w"
    by (auto simp: cursor_after_cycle truthy_def split: sum.splits)
qed

text \<open>
  The first cycle on a mailbox whose listing never ends: five pages are fetched, the warning
  is printed, and the cursor is still absent after the cycle.
\<close>

theorem fallback_mode_contract_witness:
  "\<not> truthy None
   \<and> fst (listNewEmailMessages env_many_pages None world_fresh)
       = Inr (replicate 5 (stub ''x''), None)
   \<and> length (filter is_list_call (trace (snd (listNewEmailMessages env_many_pages None world_fresh)))) = 5
   \<and> cap_warning \<in> set (trace (snd (listNewEmailMessages env_many_pages None world_fresh)))
   \<and> cursor world_fresh = None
   \<and> cursor (runEmailSync env_many_pages world_fresh) = None"
proof -
  have nt: "\<not> truthy None" by (simp add: truthy_def)
  have cw: "cursor world_fresh = None" by (simp add: cursor_def world_fresh_def)
  from fallback_mode_contract[OF nt, of env_many_pages world_fresh] cw
  have c: "cursor (runEmailSync env_many_pages world_fresh) = None" by simp
  have l: "listNewEmailMessages env_many_pages None world_fresh =
     (Inr (replicate 5 (stub ''x''), None),
      world_fresh\<lparr>trace :=
        [Console WARN ''GmailService: No startHistoryId provided. Performing fallback using messages.list for recent emails.'' [],
         Console LOG ''GmailService: Fallback messages.list page'' [Str ''start''],
         Remote (MessagesList None),
         Console LOG ''GmailService: Fallback messages.list page'' [Str ''next''],
         Remote (MessagesList (Some ''next'')),
         Console LOG ''GmailService: Fallback messages.list page'' [Str ''next''],
         Remote (MessagesList (Some ''next'')),
         Console LOG ''GmailService: Fallback messages.list page'' [Str ''next''],
         Remote (MessagesList (Some ''next'')),
         Console LOG ''GmailService: Fallback messages.list page'' [Str ''next''],
         Remote (MessagesList (Some ''next'')),
         cap_warning,
         Console LOG ''GmailService: Fallback messages.list fetched message stubs.'' []]\<rparr>)"
  proof -
    have ev: "Suc (Suc 0) dvd Suc (Suc (Suc (Suc 0)))"
      by (rule dvdI[where k = "Suc (Suc 0)"]) simp
    show ?thesis
      by (simp add: env_many_pages_def world_fresh_def cap_warning_def eval_defs console_def emit_def
          fallback_pages.simps numeral_eq_Suc ev)
  qed
  show ?thesis using nt cw c unfolding l by (simp add: cap_warning_def)
qed

section \<open>C4: idempotent ingestion\<close>

lemma saveEmail_cases:
  "(fst (saveEmail env p w) = None \<and> logs_only w (snd (saveEmail env p w)))
   \<or> (\<exists>e. saveEmail env p w = (Some e, w\<lparr>emails := emails w @ [e]\<rparr>) \<and> content e = p
          \<and> \<not> unique_violation (emails w) p)"
proof (cases "email_create env p w")
  case (Inl e)
  then show ?thesis using saveEmail_on_error by blast
next
  case (Inr r)
  then show ?thesis
    by (auto simp: saveEmail_def email_create_def Let_def split: option.splits if_splits)
qed

lemma unique_ok_snoc:
  assumes "unique_ok es" and "\<not> unique_violation es p" and "content e = p"
  shows "unique_ok (es @ [e])"
proof -
  have g: "gmailId p \<notin> set (map (\<lambda>e. gmailId (content e)) es)"
    using assms(2) by (auto simp: unique_violation_def)
  have m: "messageId p \<noteq> None \<Longrightarrow> messageId p \<notin> set (map (\<lambda>e. messageId (content e)) es)"
    using assms(2) by (auto simp: unique_violation_def)
  show ?thesis using assms(1,3) g m
    by (auto simp: unique_ok_def)
qed

lemma duplicate_violates:
  assumes "e \<in> set es" and "content e = p"
    and "gmailId p' = gmailId p \<or> (messageId p \<noteq> None \<and> messageId p' = messageId p)"
  shows "unique_violation es p'"
  using assms unfolding unique_violation_def by (intro bexI[of _ e]) auto

lemma saveEmail_duplicate:
  assumes "unique_violation (emails w) p"
  shows "fst (saveEmail env p w) = None \<and> logs_only w (snd (saveEmail env p w))"
proof -
  have "\<exists>e. email_create env p w = Inl e"
    using assms by (simp add: email_create_def split: option.splits)
  then show ?thesis using saveEmail_on_error by blast
qed

lemma processAndSaveEmail_duplicate_trace:
  assumes "truthy (msg_id raw)" and "parseEmailContent env raw = Inr p"
    and "fst (saveEmail env p w) = None"
  shows "\<exists>l m a. trace (processAndSaveEmail env raw w) = trace w @
     [Console l m a,
      Console LOG ''Email was not saved (likely a duplicate or minor save issue). Skipping attachment processing.''
        [Str (or_else (gmailId p) []), Str (or_else (messageId p) [])]]"
proof -
  have "\<exists>l m a. saveEmail env p w = (None, console l m a w)"
    using assms(3)
    by (cases "email_create env p w") (auto simp: saveEmail_def split: if_splits)
  then obtain l m a where s: "saveEmail env p w = (None, console l m a w)" by blast
  show ?thesis using assms(1,2) s
    by (simp add: processAndSaveEmail_def)
qed

text \<open>
  C4. Saving keeps the stored rows free of two rows with the same \<open>gmailId\<close> or the same
  non-null \<open>messageId\<close>. When a save has stored a row, then in every later world that
  still holds that row a save of an item with the same \<open>gmailId\<close>, or with the same
  \<open>messageId\<close> where that is not null, returns \<open>null\<close> without raising and without
  changing the database; \<open>processAndSaveEmail\<close> on such an item prints two console lines
  and does nothing else: no download, no upload, no Attachment row.
\<close>

theorem idempotent_ingestion:
  "(unique_ok (emails w) \<longrightarrow> unique_ok (emails (snd (saveEmail env p w))))
   \<and> (saveEmail env p w = (Some e, w1) \<longrightarrow> e \<in> set (emails w1) \<and> content e = p)
   \<and> (saveEmail env p w = (Some e, w1) \<and> e \<in> set (emails w2)
        \<and> (gmailId p' = gmailId p \<or> (messageId p \<noteq> None \<and> messageId p' = messageId p))
      \<longrightarrow> fst (saveEmail env p' w2) = None
          \<and> logs_only w2 (snd (saveEmail env p' w2))
          \<and> (truthy (msg_id raw) \<and> parseEmailContent env raw = Inr p' \<longrightarrow>
                logs_only w2 (processAndSaveEmail env raw w2)
                \<and> (\<exists>l m a. trace (processAndSaveEmail env raw w2) = trace w2 @
                     [Console l m a,
                      Console LOG ''Email was not saved (likely a duplicate or minor save issue). Skipping attachment processing.''
                        [Str (or_else (gmailId p') []), Str (or_else (messageId p') [])]])))"
proof (intro conjI impI)
  assume u: "unique_ok (emails w)"
  from saveEmail_cases[of env p w] show "unique_ok (emails (snd (saveEmail env p w)))"
  proof
    assume "fst (saveEmail env p w) = None \<and> logs_only w (snd (saveEmail env p w))"
    then show ?thesis using u by (simp add: logs_only_def)
  next
    assume "\<exists>e. saveEmail env p w = (Some e, w\<lparr>emails := emails w @ [e]\<rparr>) \<and> content e = p
          \<and> \<not> unique_violation (emails w) p"
    then show ?thesis using u unique_ok_snoc by auto
  qed
next
  assume s: "saveEmail env p w = (Some e, w1)"
  from saveEmail_cases[of env p w] s show "e \<in> set (emails w1)" "content e = p" by auto
next
  assume h: "saveEmail env p w = (Some e, w1) \<and> e \<in> set (emails w2)
        \<and> (gmailId p' = gmailId p \<or> (messageId p \<noteq> None \<and> messageId p' = messageId p))"
  then have ce: "content e = p" using saveEmail_cases[of env p w] by auto
  have v: "unique_violation (emails w2) p'"
    using h ce duplicate_violates[of e "emails w2" p p'] by blast
  show "fst (saveEmail env p' w2) = None" "logs_only w2 (snd (saveEmail env p' w2))"
    using saveEmail_duplicate[OF v] by blast+
  {
    assume r: "truthy (msg_id raw) \<and> parseEmailContent env raw = Inr p'"
    have n: "fst (saveEmail env p' w2) = None" using saveEmail_duplicate[OF v] by blast
    show "logs_only w2 (processAndSaveEmail env raw w2)"
      using r n processAndSaveEmail_not_saved by blast
    show "\<exists>l m a. trace (processAndSaveEmail env raw w2) = trace w2 @
                     [Console l m a,
                      Console LOG ''Email was not saved (likely a duplicate or minor save issue). Skipping attachment processing.''
                        [Str (or_else (gmailId p') []), Str (or_else (messageId p') [])]]"
      using r n processAndSaveEmail_duplicate_trace by blast
  }
qed


text \<open>
  The message \<open>m1\<close> is stored; it is then processed again, this time carrying attachments:
  the second save returns \<open>null\<close>, one Email row and no Attachment row exist.
\<close>

theorem idempotent_ingestion_witness:
  "unique_ok (emails world_base)
   \<and> saveEmail env_base (content saved_m1) world_base
        = (Some saved_m1, world_base\<lparr>emails := [saved_m1]\<rparr>)
   \<and> truthy (msg_id (full_msg ''m1'' ''<m1@x>'' example_parts))
   \<and> parseEmailContent env_base (full_msg ''m1'' ''<m1@x>'' example_parts)
        = Inr ((content saved_m1)\<lparr>body_text := ''aGVsbG8=''\<rparr>)
   \<and> unique_ok (emails (snd (saveEmail env_base (content saved_m1) world_base)))
   \<and> fst (saveEmail env_base ((content saved_m1)\<lparr>body_text := ''aGVsbG8=''\<rparr>)
             (world_base\<lparr>emails := [saved_m1]\<rparr>)) = None
   \<and> emails (processAndSaveEmail env_base (full_msg ''m1'' ''<m1@x>'' example_parts)
               (world_base\<lparr>emails := [saved_m1]\<rparr>)) = [saved_m1]
   \<and> attachments (processAndSaveEmail env_base (full_msg ''m1'' ''<m1@x>'' example_parts)
               (world_base\<lparr>emails := [saved_m1]\<rparr>)) = []"
proof -
  let ?p = "content saved_m1"
  let ?p' = "(content saved_m1)\<lparr>body_text := ''aGVsbG8=''\<rparr>"
  let ?w1 = "world_base\<lparr>emails := [saved_m1]\<rparr>"
  let ?raw = "full_msg ''m1'' ''<m1@x>'' example_parts"
  have u: "unique_ok (emails world_base)" by (simp add: unique_ok_def world_base_def)
  have s: "saveEmail env_base ?p world_base = (Some saved_m1, ?w1)"
    by (simp add: saveEmail_def email_create_def env_base_def world_base_def saved_m1_def
        unique_violation_def Let_def)
  have m: "saved_m1 \<in> set (emails ?w1)" by simp
  have g: "gmailId ?p' = gmailId ?p \<or> (messageId ?p \<noteq> None \<and> messageId ?p' = messageId ?p)"
    by simp
  have t: "truthy (msg_id ?raw)" by (simp add: full_msg_def truthy_def)
  have pr: "parseEmailContent env_base ?raw = Inr ?p'"
    by (simp add: full_msg_def example_parts_def saved_m1_def eval_defs)
  note th = idempotent_ingestion[of world_base env_base ?p saved_m1 ?w1 ?w1 ?p' ?raw]
  have u1: "unique_ok (emails (snd (saveEmail env_base ?p world_base)))" using th u by blast
  have n: "fst (saveEmail env_base ?p' ?w1) = None" using th s m g by blast
  have "logs_only ?w1 (processAndSaveEmail env_base ?raw ?w1)" using th s m g t pr by blast
  then have "emails (processAndSaveEmail env_base ?raw ?w1) = [saved_m1]
     \<and> attachments (processAndSaveEmail env_base ?raw ?w1) = []"
    by (simp add: logs_only_def world_base_def)
  with u s t pr u1 n show ?thesis by blast
qed

section \<open>C5: attachment atomicity\<close>

lemma downloadAttachment_fst:
  assumes "token w' = token w"
  shows "fst (downloadAttachment env i a w') = fst (downloadAttachment env i a w)"
proof -
  obtain r w1 where a: "getAuthenticatedClient env w = (r, w1)"
    by (cases "getAuthenticatedClient env w")
  obtain r' w1' where a': "getAuthenticatedClient env w' = (r', w1')"
    by (cases "getAuthenticatedClient env w'")
  have "r' = r" using getAuthenticatedClient_fst[OF assms, of env] a a' by simp
  then show ?thesis using a a'
    by (simp add: downloadAttachment_def Let_def split: sum.splits)
qed

lemma files_create_checked_fst:
  "fst (files_create_checked env f m d w') = fst (files_create_checked env f m d w)"
  by (simp add: files_create_checked_def Let_def split: sum.splits option.splits)

lemma uploadToDrive_fst:
  assumes "token w' = token w"
  shows "fst (uploadToDrive env f m d w') = fst (uploadToDrive env f m d w)"
proof -
  obtain r w1 where a: "getAuthenticatedClient env w = (r, w1)"
    by (cases "getAuthenticatedClient env w")
  obtain r' w1' where a': "getAuthenticatedClient env w' = (r', w1')"
    by (cases "getAuthenticatedClient env w'")
  have rr: "r' = r" using getAuthenticatedClient_fst[OF assms, of env] a a' by simp
  obtain r2 w2 where c: "files_create_checked env f m d w1 = (r2, w2)"
    by (cases "files_create_checked env f m d w1")
  obtain r2' w2' where c': "files_create_checked env f m d w1' = (r2', w2')"
    by (cases "files_create_checked env f m d w1'")
  have "r2' = r2" using files_create_checked_fst[of env f m d w1' w1] c c' by simp
  then show ?thesis using a a' rr c c'
    by (simp add: uploadToDrive_def split: sum.splits)
qed

lemma downloadAttachment_data:
  "fst (downloadAttachment env i a w) = Inr (Some d) \<Longrightarrow> d \<noteq> []"
  by (cases "getAuthenticatedClient env w")
     (auto simp: downloadAttachment_def Let_def or_undefined_def truthy_def
      split: sum.splits if_splits option.splits)

lemma uploadToDrive_file:
  "fst (uploadToDrive env fn mt d w) = Inr f \<Longrightarrow>
   truthy (file_id f) \<and> truthy (webViewLink f) \<and> files_create env fn mt d = Inr (Some f)"
proof -
  assume u: "fst (uploadToDrive env fn mt d w) = Inr f"
  obtain r w1 where a: "getAuthenticatedClient env w = (r, w1)"
    by (cases "getAuthenticatedClient env w")
  obtain r2 w2 where c: "files_create_checked env fn mt d w1 = (r2, w2)"
    by (cases "files_create_checked env fn mt d w1")
  have "r2 = Inr f" using u a c
    by (auto simp: uploadToDrive_def split: sum.splits if_splits)
  then show ?thesis using c
    by (auto simp: files_create_checked_def Let_def split: sum.splits option.splits if_splits)
qed

lemma transfer_token:
  "token w' = token w \<Longrightarrow> transfer env w' rawId saved p = transfer env w rawId saved p"
  using downloadAttachment_fst[of w' w env rawId] uploadToDrive_fst[of w' w env]
  by (auto simp: transfer_def Let_def split: sum.splits option.splits)

lemma processPart_attachments:
  "attachments (processPart env rawId saved p w) = attachments w @ transfer env w rawId saved p"
proof -
  let ?attId = "case body p of None \<Rightarrow> None | Some pb \<Rightarrow> attachmentId pb"
  let ?fn = "or_else (filename p) []"
  let ?mt = "or_else (mimeType p) []"
  show ?thesis
  proof (cases "\<not> truthy ?attId \<or> \<not> truthy (filename p) \<or> \<not> truthy (mimeType p)")
    case True
    then show ?thesis by (auto simp: processPart_def transfer_def Let_def)
  next
    case False
    let ?w1 = "console LOG ''Downloading attachment:'' [?fn] w"
    obtain r1 w2 where d: "downloadAttachment env rawId (or_else ?attId []) ?w1 = (r1, w2)"
      by (cases "downloadAttachment env rawId (or_else ?attId []) ?w1")
    have l2: "logs_only w w2"
      using downloadAttachment_logs_onlyD[OF d] by (auto simp: logs_only_def)
    have d0: "fst (downloadAttachment env rawId (or_else ?attId []) w) = r1"
      using downloadAttachment_fst[of ?w1 w env rawId "or_else ?attId []"] d by simp
    show ?thesis
    proof (cases r1)
      case (Inl e)
      then show ?thesis using False d d0 l2
        by (simp add: processPart_def transfer_def Let_def logs_only_def)
    next
      case (Inr base64data)
      show ?thesis
      proof (cases base64data)
        case None
        then show ?thesis using False d d0 l2 Inr
          by (simp add: processPart_def transfer_def Let_def logs_only_def truthy_def)
      next
        case (Some dat)
        have dn: "dat \<noteq> []" using downloadAttachment_data[of env rawId "or_else ?attId []" w dat] d0 Inr Some
          by simp
        let ?w3 = "console LOG ''Uploading to Drive'' [?fn] w2"
        obtain r2 w4 where u: "uploadToDrive env ?fn ?mt dat ?w3 = (r2, w4)"
          by (cases "uploadToDrive env ?fn ?mt dat ?w3")
        have l4: "logs_only w w4"
          using uploadToDrive_logs_onlyD[OF u] l2 by (auto simp: logs_only_def)
        have "token ?w3 = token w" using l2 by (simp add: logs_only_def)
        then have u0: "fst (uploadToDrive env ?fn ?mt dat w) = r2"
          using uploadToDrive_fst[of ?w3 w env ?fn ?mt dat] u by simp
        show ?thesis
        proof (cases r2)
          case (Inl e)
          then show ?thesis using False d d0 \<open>r1 = Inr base64data\<close> Some dn u u0 l4
            by (simp add: processPart_def transfer_def Let_def logs_only_def truthy_def or_else_def)
        next
          case (Inr f)
          have tf: "truthy (file_id f) \<and> truthy (webViewLink f)"
            using uploadToDrive_file[of env ?fn ?mt dat w f] u0 Inr by simp
          show ?thesis using False d d0 \<open>r1 = Inr base64data\<close> Some dn u u0 l4 Inr tf
            by (simp add: processPart_def transfer_def Let_def logs_only_def truthy_def or_else_def
                attachment_create_def split: option.splits)
        qed
      qed
    qed
  qed
qed

lemma fold_processPart_attachments:
  "attachments (fold (processPart env rawId saved) ps w) =
     attachments w @ concat (map (transfer env w rawId saved) ps)"
proof (induction ps arbitrary: w)
  case Nil
  then show ?case by simp
next
  case (Cons p ps)
  let ?w1 = "processPart env rawId saved p w"
  have "token ?w1 = token w" by (simp add: processPart_frame)
  then have "transfer env ?w1 rawId saved = transfer env w rawId saved"
    using transfer_token[of ?w1 w env rawId saved] by (intro ext) simp
  then show ?case using Cons.IH[of ?w1] by (simp add: processPart_attachments)
qed


text \<open>
  C5, as amended. For a part that passed the check of the loop (file name, MIME type and
  \<open>attachmentId\<close> present), the loop body adds an Attachment row if and only if
  \<open>downloadAttachment\<close> returned data, \<open>uploadToDrive\<close> returned a file, and the
  insert of the row raised no error; the file then has both an \<open>id\<close> and a
  \<open>webViewLink\<close>, and the row links the owning item to them. In every other case no row
  is written. The Email rows are as before in both cases, and the rows written for the
  remaining parts of the loop are those each of them yields on its own.
\<close>

theorem attachment_atomicity:
  assumes "truthy (filename p)" and "truthy (mimeType p)"
    and "body p = Some pb" and "truthy (attachmentId pb)"
  shows "((\<exists>a. attachments (processPart env rawId saved p w) = attachments w @ [a]) \<longleftrightarrow>
            (\<exists>d f. fst (downloadAttachment env rawId (or_else (attachmentId pb) []) w) = Inr (Some d)
               \<and> fst (uploadToDrive env (or_else (filename p) []) (or_else (mimeType p) []) d w) = Inr f
               \<and> attachment_create_fault env
                    \<lparr> att_filename = or_else (filename p) [],
                      att_mimeType = or_else (mimeType p) [],
                      driveId = or_else (file_id f) [],
                      driveUrl = or_else (webViewLink f) [],
                      emailId = email_id saved \<rparr> = None))
     \<and> (\<forall>d f. fst (downloadAttachment env rawId (or_else (attachmentId pb) []) w) = Inr (Some d)
               \<and> fst (uploadToDrive env (or_else (filename p) []) (or_else (mimeType p) []) d w) = Inr f
               \<and> attachment_create_fault env
                    \<lparr> att_filename = or_else (filename p) [],
                      att_mimeType = or_else (mimeType p) [],
                      driveId = or_else (file_id f) [],
                      driveUrl = or_else (webViewLink f) [],
                      emailId = email_id saved \<rparr> = None
           \<longrightarrow> d \<noteq> [] \<and> truthy (file_id f) \<and> truthy (webViewLink f)
               \<and> attachments (processPart env rawId saved p w) = attachments w @
                    [\<lparr> att_filename = or_else (filename p) [],
                       att_mimeType = or_else (mimeType p) [],
                       driveId = or_else (file_id f) [],
                       driveUrl = or_else (webViewLink f) [],
                       emailId = email_id saved \<rparr>])
     \<and> (\<not> (\<exists>d f. fst (downloadAttachment env rawId (or_else (attachmentId pb) []) w) = Inr (Some d)
               \<and> fst (uploadToDrive env (or_else (filename p) []) (or_else (mimeType p) []) d w) = Inr f
               \<and> attachment_create_fault env
                    \<lparr> att_filename = or_else (filename p) [],
                      att_mimeType = or_else (mimeType p) [],
                      driveId = or_else (file_id f) [],
                      driveUrl = or_else (webViewLink f) [],
                      emailId = email_id saved \<rparr> = None)
           \<longrightarrow> attachments (processPart env rawId saved p w) = attachments w)
     \<and> emails (processPart env rawId saved p w) = emails w
     \<and> attachments (fold (processPart env rawId saved) (p # rest) w) =
          attachments (processPart env rawId saved p w) @ concat (map (transfer env w rawId saved) rest)"
proof -
  let ?dl = "fst (downloadAttachment env rawId (or_else (attachmentId pb) []) w)"
  let ?up = "\<lambda>d. fst (uploadToDrive env (or_else (filename p) []) (or_else (mimeType p) []) d w)"
  let ?rec = "\<lambda>f. \<lparr> att_filename = or_else (filename p) [],
                       att_mimeType = or_else (mimeType p) [],
                       driveId = or_else (file_id f) [],
                       driveUrl = or_else (webViewLink f) [],
                       emailId = email_id saved \<rparr>"
  let ?ok = "\<lambda>d f. ?dl = Inr (Some d) \<and> ?up d = Inr f \<and> attachment_create_fault env (?rec f) = None"
  have tr: "transfer env w rawId saved p =
      (case ?dl of
         Inr (Some d) \<Rightarrow>
           (case ?up d of
              Inr f \<Rightarrow> if attachment_create_fault env (?rec f) = None then [?rec f] else []
            | Inl e \<Rightarrow> [])
       | Inr None \<Rightarrow> []
       | Inl e \<Rightarrow> [])"
    using assms by (simp add: transfer_def Let_def split: sum.splits option.splits)
  have yes: "\<And>d f. ?ok d f \<Longrightarrow>
       attachments (processPart env rawId saved p w) = attachments w @ [?rec f]"
    by (simp add: processPart_attachments tr)
  have no: "\<not> (\<exists>d f. ?ok d f) \<Longrightarrow>
       attachments (processPart env rawId saved p w) = attachments w"
    by (auto simp: processPart_attachments tr split: sum.splits option.splits)
  have c1: "(\<exists>a. attachments (processPart env rawId saved p w) = attachments w @ [a]) \<longleftrightarrow>
            (\<exists>d f. ?ok d f)"
  proof
    assume "\<exists>a. attachments (processPart env rawId saved p w) = attachments w @ [a]"
    then have "attachments (processPart env rawId saved p w) \<noteq> attachments w" by auto
    then show "\<exists>d f. ?ok d f" using no by blast
  next
    assume "\<exists>d f. ?ok d f"
    then show "\<exists>a. attachments (processPart env rawId saved p w) = attachments w @ [a]"
      using yes by blast
  qed
  have c2: "\<forall>d f. ?ok d f
           \<longrightarrow> d \<noteq> [] \<and> truthy (file_id f) \<and> truthy (webViewLink f)
               \<and> attachments (processPart env rawId saved p w) = attachments w @ [?rec f]"
    using yes downloadAttachment_data uploadToDrive_file by blast
  have c4: "emails (processPart env rawId saved p w) = emails w"
    by (simp add: processPart_frame)
  have "token (processPart env rawId saved p w) = token w" by (simp add: processPart_frame)
  then have "transfer env (processPart env rawId saved p w) rawId saved = transfer env w rawId saved"
    using transfer_token[of "processPart env rawId saved p w" w env rawId saved] by (intro ext) simp
  then have c5: "attachments (fold (processPart env rawId saved) (p # rest) w) =
          attachments (processPart env rawId saved p w) @ concat (map (transfer env w rawId saved) rest)"
    using fold_processPart_attachments[of env rawId saved rest "processPart env rawId saved p w"]
    by simp
  show ?thesis using c1 c2 no c4 c5 by blast
qed

text \<open>
  The download of \<open>a.pdf\<close> returns data and its upload fails: no row for it; the Email row
  is intact; the loop goes on and writes the row of \<open>c.png\<close>, whose download, upload and
  insert succeed.
\<close>

theorem attachment_atomicity_witness:
  "truthy (filename part_a) \<and> truthy (mimeType part_a)
   \<and> body part_a = Some (PartBody (Some ''att1'') None)
   \<and> truthy (attachmentId (PartBody (Some ''att1'') None))
   \<and> fst (downloadAttachment env_upload_fails ''m1'' ''att1'' world_m1) = Inr (Some ''ZGF0YQ=='')
   \<and> fst (uploadToDrive env_upload_fails ''a.pdf'' ''application/pdf'' ''ZGF0YQ=='' world_m1) = Inl err500
   \<and> attachments (processPart env_upload_fails ''m1'' saved_m1 part_a world_m1) = []
   \<and> emails (processPart env_upload_fails ''m1'' saved_m1 part_a world_m1) = [saved_m1]
   \<and> attachments (fold (processPart env_upload_fails ''m1'' saved_m1) [part_a, part_c] world_m1) =
        [\<lparr> att_filename = ''c.png'', att_mimeType = ''image/png'', driveId = ''drv2'',
           driveUrl = ''https://drive/2'', emailId = 1 \<rparr>]"
proof -
  have a: "truthy (filename part_a)" "truthy (mimeType part_a)"
    "body part_a = Some (PartBody (Some ''att1'') None)"
    "truthy (attachmentId (PartBody (Some ''att1'') None))"
    by (simp_all add: part_a_def truthy_def)
  have d: "fst (downloadAttachment env_upload_fails ''m1'' ''att1'' world_m1) = Inr (Some ''ZGF0YQ=='')"
    by (simp add: env_upload_fails_def world_m1_def eval_defs console_def emit_def)
  have u: "fst (uploadToDrive env_upload_fails ''a.pdf'' ''application/pdf'' ''ZGF0YQ=='' world_m1) = Inl err500"
    by (simp add: env_upload_fails_def world_m1_def eval_defs console_def emit_def)
  have tc: "transfer env_upload_fails world_m1 ''m1'' saved_m1 part_c =
        [\<lparr> att_filename = ''c.png'', att_mimeType = ''image/png'', driveId = ''drv2'',
           driveUrl = ''https://drive/2'', emailId = 1 \<rparr>]"
    by (simp add: transfer_def part_c_def saved_m1_def env_upload_fails_def world_m1_def eval_defs
        console_def emit_def)
  note th = attachment_atomicity[OF a, where env = env_upload_fails and rawId = "''m1''"
      and w = world_m1 and saved = saved_m1 and rest = "[part_c]"]
  have n: "\<not> (\<exists>d f. fst (downloadAttachment env_upload_fails ''m1'' (or_else (attachmentId (PartBody (Some ''att1'') None)) []) world_m1) = Inr (Some d)
               \<and> fst (uploadToDrive env_upload_fails (or_else (filename part_a) []) (or_else (mimeType part_a) []) d world_m1) = Inr f
               \<and> attachment_create_fault env_upload_fails
                    \<lparr> att_filename = or_else (filename part_a) [],
                      att_mimeType = or_else (mimeType part_a) [],
                      driveId = or_else (file_id f) [],
                      driveUrl = or_else (webViewLink f) [],
                      emailId = email_id saved_m1 \<rparr> = None)"
    using d u by (simp add: or_else_def part_a_def)
  have p1: "attachments (processPart env_upload_fails ''m1'' saved_m1 part_a world_m1) = attachments world_m1"
    using th n by blast
  have p2: "emails (processPart env_upload_fails ''m1'' saved_m1 part_a world_m1) = emails world_m1"
    using th by blast
  have p3: "attachments (fold (processPart env_upload_fails ''m1'' saved_m1) [part_a, part_c] world_m1) =
          attachments (processPart env_upload_fails ''m1'' saved_m1 part_a world_m1)
            @ concat (map (transfer env_upload_fails world_m1 ''m1'' saved_m1) [part_c])"
    using th by blast
  show ?thesis using a d u p1 p2 p3 tc
    by (simp add: world_m1_def world_base_def)
qed

text \<open>
  The claim as stated fails where the download returned data and the upload returned a
  file with identifier and locator, and the insert of the row then raises: the error is
  caught by the \<open>catch\<close> of the part and no Attachment row exists.
\<close>

theorem attachment_atomicity_counterexample:
  "fst (downloadAttachment env_insert_fails ''m1'' ''att3'' world_m1) = Inr (Some ''ZGF0YQ=='')
   \<and> fst (uploadToDrive env_insert_fails ''c.png'' ''image/png'' ''ZGF0YQ=='' world_m1)
        = Inr \<lparr> file_id = Some ''drv2'', webViewLink = Some ''https://drive/2'' \<rparr>
   \<and> attachments (processPart env_insert_fails ''m1'' saved_m1 part_c world_m1) = []
   \<and> emails (processPart env_insert_fails ''m1'' saved_m1 part_c world_m1) = [saved_m1]"
  by (simp add: env_insert_fails_def env_upload_fails_def part_c_def saved_m1_def world_m1_def
      eval_defs console_def emit_def)

section \<open>C3: per-item fault isolation\<close>

lemma unique_violation_collide:
  "unique_violation es p \<longleftrightarrow> (\<exists>e \<in> set es. collide (content e) p)"
  by (simp add: unique_violation_def collide_def)

lemma unique_violation_snoc:
  "unique_violation (es @ [e]) p \<longleftrightarrow> unique_violation es p \<or> collide (content e) p"
  by (auto simp: unique_violation_collide)

lemma pairwise_fresh_append:
  "pairwise_fresh (xs @ ys) \<longleftrightarrow>
     pairwise_fresh xs \<and> pairwise_fresh ys \<and> (\<forall>x \<in> set xs. \<forall>y \<in> set ys. \<not> collide x y)"
  by (induction xs) auto

lemma processPart_trace: "\<exists>t. trace (processPart env rawId saved p w) = trace w @ t"
proof -
  let ?attId = "case body p of None \<Rightarrow> None | Some pb \<Rightarrow> attachmentId pb"
  let ?w1 = "console LOG ''Downloading attachment:'' [or_else (filename p) []] w"
  obtain r1 w2 where d: "downloadAttachment env rawId (or_else ?attId []) ?w1 = (r1, w2)"
    by (cases "downloadAttachment env rawId (or_else ?attId []) ?w1")
  have l2: "\<exists>t. trace w2 = trace w @ t"
    using downloadAttachment_logs_onlyD[OF d] by (auto simp: logs_only_def)
  show ?thesis
  proof (cases r1)
    case (Inl e)
    then show ?thesis using d l2 by (auto simp: processPart_def Let_def)
  next
    case (Inr base64data)
    let ?w3 = "console LOG ''Uploading to Drive'' [or_else (filename p) []] w2"
    obtain r2 w4 where u: "uploadToDrive env (or_else (filename p) []) (or_else (mimeType p) [])
                              (or_else base64data []) ?w3 = (r2, w4)"
      by (cases "uploadToDrive env (or_else (filename p) []) (or_else (mimeType p) [])
                              (or_else base64data []) ?w3")
    have l4: "\<exists>t. trace w4 = trace w @ t"
      using uploadToDrive_logs_onlyD[OF u] l2 by (auto simp: logs_only_def)
    show ?thesis using d Inr u l2 l4
      by (cases r2) (auto simp: processPart_def Let_def attachment_create_def split: option.splits)
  qed
qed

lemma fold_processPart_trace:
  "\<exists>t. trace (fold (processPart env rawId saved) ps w) = trace w @ t"
proof (induction ps arbitrary: w)
  case Nil
  then show ?case by simp
next
  case (Cons p ps)
  obtain t1 where "trace (processPart env rawId saved p w) = trace w @ t1"
    using processPart_trace by blast
  moreover obtain t2 where "trace (fold (processPart env rawId saved) ps (processPart env rawId saved p w))
      = trace (processPart env rawId saved p w) @ t2"
    using Cons.IH by blast
  ultimately show ?case by simp
qed

lemma processAndSaveEmail_stores:
  assumes "truthy (msg_id full)" and "parseEmailContent env full = Inr p"
    and "email_create_fault env p = None" and "\<not> unique_violation (emails w) p"
  shows "\<exists>e. content e = p \<and> emails (processAndSaveEmail env full w) = emails w @ [e]
     \<and> token (processAndSaveEmail env full w) = token w
     \<and> (\<exists>t. trace (processAndSaveEmail env full w) = trace w @ t)"
proof -
  let ?e = "\<lparr> email_id = Suc (length (emails w)), content = p \<rparr>"
  let ?w1 = "w\<lparr>emails := emails w @ [?e]\<rparr>"
  have s: "saveEmail env p w = (Some ?e, ?w1)"
    using assms(3,4) by (simp add: saveEmail_def email_create_def Let_def)
  let ?w2 = "console LOG ''Email metadata saved to DB.''
               [take 30 (or_else (subject (content ?e)) ''No Subject'')] ?w1"
  have w2: "emails ?w2 = emails w @ [?e]" "trace ?w2 = trace w @ [Console LOG ''Email metadata saved to DB.''
               [Str (take 30 (or_else (subject (content ?e)) ''No Subject''))]]"
    by simp_all
  have em: "emails (processAndSaveEmail env full w) = emails w @ [?e]"
    using assms(1,2) s w2(1)
    by (simp add: processAndSaveEmail_def Let_def fold_processPart_frame split: option.splits)
  have tr: "\<exists>t. trace (processAndSaveEmail env full w) = trace w @ t"
  proof (cases "msg_payload full")
    case None
    then show ?thesis using assms(1,2) s by (simp add: processAndSaveEmail_def Let_def)
  next
    case (Some pl)
    let ?ps = "findAttachments (case payload_parts pl of Some ps \<Rightarrow> ps | None \<Rightarrow> []) []"
    let ?w3 = "console LOG ''Found attachment(s) for email'' [or_else (msg_id full) []] ?w2"
    obtain t where "trace (fold (processPart env (or_else (msg_id full) []) ?e) ?ps ?w3) = trace ?w3 @ t"
      using fold_processPart_trace by blast
    then show ?thesis using assms(1,2) s Some
      by (simp add: processAndSaveEmail_def Let_def)
  qed
  show ?thesis using em tr processAndSaveEmail_token by (intro exI[of _ ?e]) simp
qed

lemma batch_all_store:
  assumes "auth_ok env w" and "list_all2 (stores env) hs ps"
    and "\<forall>p \<in> set ps. \<not> unique_violation (emails w) p" and "pairwise_fresh ps"
  shows "\<exists>w'. fold (sync_one env) hs (s, f, w) = (s + length hs, f, w')
     \<and> map content (emails w') = map content (emails w) @ ps
     \<and> token w' = token w \<and> (\<exists>t. trace w' = trace w @ t)"
  using assms
proof (induction hs arbitrary: ps s f w)
  case Nil
  then show ?case by simp
next
  case (Cons h hs)
  from Cons.prems(2) obtain p ps' where ps: "ps = p # ps'" and hp: "stores env h p"
    and rest: "list_all2 (stores env) hs ps'"
    by (auto simp: list_all2_Cons1)
  from hp obtain j full where j: "msg_id h = Some j" "j \<noteq> []" "messages_get env j = Inr full"
    and fu: "truthy (msg_id full)" "parseEmailContent env full = Inr p" "email_create_fault env p = None"
    by (auto simp: stores_def split: option.splits sum.splits)
  from sync_one_fetched[OF Cons.prems(1) j(2) j(1) j(3), of s f]
  obtain w2 where l2: "logs_only w w2"
    and so: "sync_one env h (s, f, w) = (Suc s, f, processAndSaveEmail env full w2)" by blast
  have nv: "\<not> unique_violation (emails w2) p"
    using Cons.prems(3) ps l2 by (simp add: logs_only_def)
  from processAndSaveEmail_stores[OF fu nv]
  obtain e where e: "content e = p"
    and em: "emails (processAndSaveEmail env full w2) = emails w2 @ [e]"
    and tk: "token (processAndSaveEmail env full w2) = token w2"
    and tr: "\<exists>t. trace (processAndSaveEmail env full w2) = trace w2 @ t" by blast
  let ?w3 = "processAndSaveEmail env full w2"
  have t3: "token ?w3 = token w" using tk l2 by (simp add: logs_only_def)
  have a3: "auth_ok env ?w3" using Cons.prems(1) auth_ok_token[OF t3, of env] by simp
  have e3: "emails ?w3 = emails w @ [e]" using em l2 by (simp add: logs_only_def)
  have f3: "\<forall>q \<in> set ps'. \<not> unique_violation (emails ?w3) q"
    using Cons.prems(3,4) ps e e3 by (auto simp: unique_violation_snoc)
  have p3: "pairwise_fresh ps'" using Cons.prems(4) ps by simp
  from Cons.IH[OF a3 rest f3 p3, of "Suc s" f]
  obtain w' where fo: "fold (sync_one env) hs (Suc s, f, ?w3) = (Suc s + length hs, f, w')"
    and mc: "map content (emails w') = map content (emails ?w3) @ ps'"
    and tw: "token w' = token ?w3" and trw: "\<exists>t. trace w' = trace ?w3 @ t" by blast
  have 1: "fold (sync_one env) (h # hs) (s, f, w) = (s + length (h # hs), f, w')"
    using so fo by simp
  have 2: "map content (emails w') = map content (emails w) @ ps"
    using mc e3 e ps by simp
  have 3: "\<exists>t. trace w' = trace w @ t"
    using trw tr l2 by (auto simp: logs_only_def)
  show ?case using 1 2 3 tw t3 by auto
qed


lemma sync_one_raises:
  assumes a: "auth_ok env w" and i: "i \<noteq> []" and m: "msg_id m = Some i"
    and g: "messages_get env i = Inl e" and c: "code e \<noteq> NumCode 404"
  shows "\<exists>w'. sync_one env m (s, f, w) = (s, Suc f, w') \<and> logs_only w w'
     \<and> Console ERROR ''Error during processing pipeline for email with Gmail ID'' [Str i, Str (message e)]
          \<in> set (trace w')"
proof -
  let ?w1 = "console LOG ''Processing email with Gmail ID:'' [i] w"
  obtain r w2 where ge: "getEmailContent env i ?w1 = (r, w2)" by (cases "getEmailContent env i ?w1")
  have "auth_ok env ?w1" using a auth_ok_token[of ?w1 w env] by simp
  then have r: "r = Inl e"
    using getEmailContent_result[of env ?w1 i] i g c ge by simp
  have l2: "logs_only w w2"
    using getEmailContent_logs_onlyD[OF ge] by (auto simp: logs_only_def)
  let ?w' = "console ERROR ''Error during processing pipeline for email with Gmail ID'' [i, message e] w2"
  have "sync_one env m (s, f, w) = (s, Suc f, ?w')"
    using ge r i m by (simp add: sync_one_def Let_def truthy_def or_else_def)
  moreover have "logs_only w ?w'" using l2 by (auto simp: logs_only_def)
  moreover have "Console ERROR ''Error during processing pipeline for email with Gmail ID'' [Str i, Str (message e)]
          \<in> set (trace ?w')"
    by simp
  ultimately show ?thesis by blast
qed

lemma sync_body_batch:
  assumes l: "listNewEmailMessages env (or_undefined cur) w = (Inr (msgs, nh), w1)"
    and ne: "msgs \<noteq> []" and t: "token w = Some tk"
    and b: "process_batch env msgs (console LOG ''Found new email message(s) to process.'' [] w1) = (s, f, w3)"
  shows "\<exists>w'. sync_body env cur w = (Inr (), w') \<and> emails w' = emails w3
     \<and> (\<exists>t. trace w' = trace w3 @
            Console LOG ''Processing summary: succeeded, failed.'' [Num s, Num f] # t)"
proof -
  have t1: "token w1 = Some tk"
    using listNewEmailMessages_logs_onlyD[OF l] t by (simp add: logs_only_def)
  have t3: "token w3 = Some tk" using process_batch_token[OF b] t1 by simp
  let ?w4 = "emit (Console LOG ''Processing summary: succeeded, failed.'' [Num s, Num f]) w3"
  have t4: "token ?w4 = Some tk" using t3 by simp
  show ?thesis
  proof (cases "truthy nh")
    case True
    then show ?thesis
      using l ne b token_update_cursor_Some[OF t4, of "or_else nh []"]
      by (simp add: sync_body_def Let_def emit_def)
  next
    case False
    then show ?thesis
      using l ne b by (simp add: sync_body_def Let_def)
  qed
qed

lemma cycle_batch:
  assumes "listing env w = Inr (msgs, nh)" and "msgs \<noteq> []"
  shows "\<exists>w2 s f w3 t. logs_only w w2 \<and> process_batch env msgs w2 = (s, f, w3)
     \<and> emails (runEmailSync env w) = emails w3
     \<and> trace (runEmailSync env w) = trace w3 @
          Console LOG ''Processing summary: succeeded, failed.'' [Num s, Num f] # t"
proof -
  from assms(1) obtain tk where tk: "token w = Some tk" and rf: "refresh tk \<noteq> []"
    and fu: "token_findUnique env w = Inr (Some tk)"
    unfolding listing_def using listing_Inr_token by blast
  let ?w0 = "console LOG ''Starting email synchronization cycle...'' [] w"
  let ?cur = "lastHistoryId tk"
  let ?w1 = "console LOG ''Current last processed Gmail History ID:''
               [or_else ?cur ''None (first sync or reset)''] ?w0"
  have f0: "token_findUnique env ?w0 = Inr (Some tk)"
    using fu by (simp add: token_findUnique_def split: option.splits)
  have lw1: "logs_only w ?w1" by (simp add: logs_only_def)
  obtain r w1' where l: "listNewEmailMessages env (or_undefined ?cur) ?w1 = (r, w1')"
    by (cases "listNewEmailMessages env (or_undefined ?cur) ?w1")
  have "fst (listNewEmailMessages env (or_undefined ?cur) ?w1) = listing env w"
    unfolding listing_def using listNewEmailMessages_fst[of ?w1 w env "or_undefined ?cur"] tk
    by (simp add: cursor_def)
  then have r: "r = Inr (msgs, nh)" using l assms(1) by simp
  let ?w2 = "console LOG ''Found new email message(s) to process.'' [] w1'"
  have lw2: "logs_only w ?w2"
    using listNewEmailMessages_logs_onlyD[OF l] lw1 by (auto simp: logs_only_def)
  obtain s f w3 where b: "process_batch env msgs ?w2 = (s, f, w3)"
    by (cases "process_batch env msgs ?w2") auto
  have t1: "token ?w1 = Some tk" using tk by simp
  from sync_body_batch[OF l[unfolded r] assms(2) t1 b]
  obtain w' t where sb: "sync_body env ?cur ?w1 = (Inr (), w')" and em: "emails w' = emails w3"
    and tr: "trace w' = trace w3 @ Console LOG ''Processing summary: succeeded, failed.'' [Num s, Num f] # t"
    by blast
  have "runEmailSync env w = w'"
    using f0 rf sb by (simp add: runEmailSync_def Let_def)
  with lw2 b em tr show ?thesis by blast
qed

text \<open>
  C3. Take a batch of N listed headers in which the fetch of one id \<open>i\<close> raises an error
  (one that is not the 404 which the fetcher turns into \<open>None\<close>) and nothing fails for the
  N - 1 others: each is fetched, parses, meets no database error, and collides with no
  stored row and no other item of the batch. Then the cycle runs to its end: the error is
  caught in the loop and printed with the id, the summary counts N - 1 succeeded and one
  failed, exactly the N - 1 other items are stored, in the order of the batch, and the
  commit of the cursor is what it is for any batch: a new cursor that is present is the
  persisted cursor after the cycle.
\<close>

theorem per_item_fault_isolation:
  assumes "listing env w = Inr (pre @ m # post, nh)"
    and "msg_id m = Some i" and "i \<noteq> []"
    and "messages_get env i = Inl e" and "code e \<noteq> NumCode 404"
    and "list_all2 (stores env) (pre @ post) ps"
    and "\<forall>p \<in> set ps. \<not> unique_violation (emails w) p" and "pairwise_fresh ps"
  shows "map content (emails (runEmailSync env w)) = map content (emails w) @ ps
     \<and> length (emails (runEmailSync env w)) = length (emails w) + (length (pre @ m # post) - 1)
     \<and> Console ERROR ''Error during processing pipeline for email with Gmail ID'' [Str i, Str (message e)]
          \<in> set (trace (runEmailSync env w))
     \<and> Console LOG ''Processing summary: succeeded, failed.'' [Num (length (pre @ m # post) - 1), Num 1]
          \<in> set (trace (runEmailSync env w))
     \<and> (truthy nh \<longrightarrow> cursor (runEmailSync env w) = nh)"
proof -
  let ?msgs = "pre @ m # post"
  have ne: "?msgs \<noteq> []" by simp
  from cycle_batch[OF assms(1) ne]
  obtain w2 s f w3 t where lw2: "logs_only w w2" and b: "process_batch env ?msgs w2 = (s, f, w3)"
    and em: "emails (runEmailSync env w) = emails w3"
    and tr: "trace (runEmailSync env w) = trace w3 @
          Console LOG ''Processing summary: succeeded, failed.'' [Num s, Num f] # t"
    by blast
  have "\<not> (\<exists>e. fst (getAuthenticatedClient env w) = Inl e)"
    using assms(1) listing_without_client unfolding listing_def by fastforce
  then have "auth_ok env w"
    unfolding auth_ok_def by (cases "fst (getAuthenticatedClient env w)") auto
  then have a2: "auth_ok env w2" using lw2 auth_ok_logs_only by blast
  have e2: "emails w2 = emails w" using lw2 by (simp add: logs_only_def)
  from assms(6) obtain ps1 ps2 where ps: "ps = ps1 @ ps2"
    and h1: "list_all2 (stores env) pre ps1" and h2: "list_all2 (stores env) post ps2"
    by (auto simp: list_all2_append1)
  have len: "length ps1 = length pre" "length ps2 = length post"
    using h1 h2 by (simp_all add: list_all2_lengthD)
  have f1: "\<forall>p \<in> set ps1. \<not> unique_violation (emails w2) p" using assms(7) ps e2 by simp
  have p1: "pairwise_fresh ps1" using assms(8) ps by (simp add: pairwise_fresh_append)
  from batch_all_store[OF a2 h1 f1 p1, of 0 0]
  obtain wa where fa: "fold (sync_one env) pre (0, 0, w2) = (length pre, 0, wa)"
    and ma: "map content (emails wa) = map content (emails w2) @ ps1"
    and ta: "token wa = token w2" by auto
  have aa: "auth_ok env wa" using a2 auth_ok_token[OF ta, of env] by simp
  from sync_one_raises[OF aa assms(3) assms(2) assms(4) assms(5), of "length pre" 0]
  obtain wb where sb: "sync_one env m (length pre, 0, wa) = (length pre, Suc 0, wb)"
    and lb: "logs_only wa wb"
    and tb: "Console ERROR ''Error during processing pipeline for email with Gmail ID'' [Str i, Str (message e)]
          \<in> set (trace wb)"
    by blast
  have ab: "auth_ok env wb" using aa lb auth_ok_logs_only by blast
  have eb: "map content (emails wb) = map content (emails w) @ ps1"
    using ma e2 lb by (simp add: logs_only_def)
  have f2: "\<forall>p \<in> set ps2. \<not> unique_violation (emails wb) p"
  proof
    fix p assume p: "p \<in> set ps2"
    have n1: "\<not> unique_violation (emails w) p" using assms(7) ps p by simp
    have n2: "\<forall>q \<in> set ps1. \<not> collide q p"
      using assms(8) ps p by (simp add: pairwise_fresh_append)
    have st: "content ` set (emails wb) = content ` set (emails w) \<union> set ps1"
      using eb by (metis list.set_map set_append)
    show "\<not> unique_violation (emails wb) p"
      unfolding unique_violation_collide
    proof
      assume "\<exists>e \<in> set (emails wb). collide (content e) p"
      then obtain e where e: "e \<in> set (emails wb)" and ce: "collide (content e) p" by blast
      from e have "content e \<in> content ` set (emails w) \<union> set ps1" using st by blast
      then show False
      proof
        assume "content e \<in> content ` set (emails w)"
        then show False using n1 ce unfolding unique_violation_collide by auto
      next
        assume "content e \<in> set ps1"
        then show False using n2 ce by blast
      qed
    qed
  qed
  have p2: "pairwise_fresh ps2" using assms(8) ps by (simp add: pairwise_fresh_append)
  from batch_all_store[OF ab h2 f2 p2, of "length pre" "Suc 0"]
  obtain wc where fc: "fold (sync_one env) post (length pre, Suc 0, wb) = (length pre + length post, Suc 0, wc)"
    and mc: "map content (emails wc) = map content (emails wb) @ ps2"
    and tc: "\<exists>t. trace wc = trace wb @ t" by auto
  have "process_batch env ?msgs w2 = (length pre + length post, Suc 0, wc)"
    using fa sb fc by (simp add: process_batch_def)
  then have res: "s = length pre + length post" "f = Suc 0" "w3 = wc" using b by simp_all
  have c1: "map content (emails (runEmailSync env w)) = map content (emails w) @ ps"
    using em res mc eb ps by simp
  have "length (map content (emails (runEmailSync env w))) = length (map content (emails w) @ ps)"
    using c1 by simp
  then have c2: "length (emails (runEmailSync env w)) = length (emails w) + (length ?msgs - 1)"
    using ps len by simp
  have c3: "Console ERROR ''Error during processing pipeline for email with Gmail ID'' [Str i, Str (message e)]
          \<in> set (trace (runEmailSync env w))"
    using tb tc tr res by auto
  have c4: "Console LOG ''Processing summary: succeeded, failed.'' [Num (length ?msgs - 1), Num 1]
          \<in> set (trace (runEmailSync env w))"
    using tr res by simp
  have c5: "truthy nh \<longrightarrow> cursor (runEmailSync env w) = nh"
    using assms(1) by (simp add: cursor_after_cycle)
  show ?thesis using c1 c2 c3 c4 c5 by blast
qed


text \<open>
  The scenario \<open>m1, m2\<close> of the specification, from the cursor \<open>H100\<close>: \<open>m1\<close> is stored,
  the error of \<open>m2\<close> is printed, and the cursor is \<open>H101\<close> after the cycle.
\<close>

theorem per_item_fault_isolation_witness:
  "listing env_scenario world_base = Inr ([stub ''m1''] @ stub ''m2'' # [], Some ''H101'')
   \<and> messages_get env_scenario ''m2'' = Inl err500
   \<and> code err500 \<noteq> NumCode 404
   \<and> list_all2 (stores env_scenario) ([stub ''m1''] @ []) [content saved_m1]
   \<and> pairwise_fresh [content saved_m1]
   \<and> map content (emails (runEmailSync env_scenario world_base)) = [content saved_m1]
   \<and> length (emails (runEmailSync env_scenario world_base)) = 1
   \<and> Console ERROR ''Error during processing pipeline for email with Gmail ID''
        [Str ''m2'', Str ''Backend Error''] \<in> set (trace (runEmailSync env_scenario world_base))
   \<and> Console LOG ''Processing summary: succeeded, failed.'' [Num 1, Num 1]
        \<in> set (trace (runEmailSync env_scenario world_base))
   \<and> cursor (runEmailSync env_scenario world_base) = Some ''H101''"
proof -
  have l: "listing env_scenario world_base = Inr ([stub ''m1''] @ stub ''m2'' # [], Some ''H101'')"
    by (simp add: env_scenario_def eval_defs console_def emit_def)
  have m: "msg_id (stub ''m2'') = Some ''m2''" and i: "''m2'' \<noteq> []" by (simp_all add: stub_def)
  have g: "messages_get env_scenario ''m2'' = Inl err500" by (simp add: env_scenario_def)
  have c: "code err500 \<noteq> NumCode 404" by (simp add: err500_def)
  have st: "stores env_scenario (stub ''m1'') (content saved_m1)"
    by (simp add: stores_def env_scenario_def full_msg_def saved_m1_def eval_defs)
  then have o: "list_all2 (stores env_scenario) ([stub ''m1''] @ []) [content saved_m1]" by simp
  have f: "\<forall>p \<in> set [content saved_m1]. \<not> unique_violation (emails world_base) p"
    by (simp add: unique_violation_def world_base_def)
  have pf: "pairwise_fresh [content saved_m1]" by simp
  note th = per_item_fault_isolation[OF l m i g c o f pf]
  have t: "truthy (Some ''H101'')" by (simp add: truthy_def)
  from th t show ?thesis using l g c o pf by (simp add: err500_def world_base_def)
qed

end
